theory Spec2Isabelle
  imports Main "HOL-Library.Word"
begin

section \<open>Favicon downloader (\<open>download_ico.py\<close>): a shallow embedding\<close>

text \<open>
  The script reads a list of sites, derives one download task per site, and for each
  task locates, fetches, converts and stores the site's icon. The functions of the script
  are translated one by one below. What the script only calls (the URL functions of the
  standard library, the HTTP client, the HTML parser, the imaging library and the file
  system) is not part of the repository; it enters the model as the record \<open>env\<close> of
  functions the script is run against, so that every theorem holds for whatever those
  libraries and the network answer. Of the console output, the messages \<open>download_icon\<close>
  prints before its \<open>try\<close> block are modelled, since an exception raised there leaves
  the function; every other message is taken to be printed.
\<close>

subsection \<open>Python strings\<close>

type_synonym bytes = "8 word list"

text \<open>\<open>s.startswith(p)\<close>\<close>

definition startswith :: "string \<Rightarrow> string \<Rightarrow> bool" where
  "startswith s p = (take (length p) s = p)"

text \<open>\<open>sub in s\<close> on strings: \<open>sub\<close> occurs in \<open>s\<close> as a contiguous substring.\<close>

fun str_in :: "string \<Rightarrow> string \<Rightarrow> bool" where
  "str_in sub [] = (sub = [])"
| "str_in sub (c # cs) = (startswith (c # cs) sub \<or> str_in sub cs)"

text \<open>
  \<open>s.split(sep)\<close> for a non-empty separator: the string is scanned from the left,
  every occurrence found is cut out and the scan goes on behind it. \<open>cur\<close> is the piece
  collected since the last cut.
\<close>

function split_from :: "string \<Rightarrow> string \<Rightarrow> string \<Rightarrow> string list" where
  "split_from sep cur [] = [cur]"
| "split_from sep cur (c # cs) =
     (if sep \<noteq> [] \<and> startswith (c # cs) sep
      then cur # split_from sep [] (drop (length sep) (c # cs))
      else split_from sep (cur @ [c]) cs)"
  by pat_completeness auto
termination
  by (relation "measure (\<lambda>(sep, cur, s). length s)") auto

definition str_split :: "string \<Rightarrow> string \<Rightarrow> string list" where
  "str_split s sep = split_from sep [] s"

subsection \<open>Constants of the script\<close>

definition MIN_ICON_SIZE :: nat where
  "MIN_ICON_SIZE = 100"

definition ICON_CONTENT_TYPES :: "string list" where
  "ICON_CONTENT_TYPES = [''image/x-icon'', ''image/vnd.microsoft.icon'']"

definition PNG_CONTENT_TYPES :: "string list" where
  "PNG_CONTENT_TYPES = [''image/png'']"

definition FAVICON_RELS :: "string list" where
  "FAVICON_RELS = [''icon'', ''shortcut icon'', ''apple-touch-icon'']"

subsection \<open>HTTP responses\<close>

text \<open>
  What the script reads of an \<open>httpx.Response\<close>: the status code, the body as bytes
  (\<open>content\<close>), the body as text (\<open>text\<close>, here \<open>resp_text\<close>) and the
  \<open>Content-Type\<close> header, absent or present.
\<close>

record response =
  status_code :: nat
  content :: bytes
  resp_text :: string
  content_type :: "string option"

text \<open>\<open>response.is_success\<close>: the status code is a 2xx code.\<close>

definition is_success :: "response \<Rightarrow> bool" where
  "is_success r = (200 \<le> status_code r \<and> status_code r \<le> 299)"

text \<open>\<open>response.headers.get("Content-Type", "")\<close>\<close>

definition get_content_type :: "response \<Rightarrow> string" where
  "get_content_type r = (case content_type r of None \<Rightarrow> [] | Some v \<Rightarrow> v)"

text \<open>\<open>_is_valid_icon_response\<close>; \<open>any(t in s for t in ts)\<close> is \<open>list_ex\<close>.\<close>

definition is_valid_icon_response :: "response \<Rightarrow> bool" where
  "is_valid_icon_response r =
     (if \<not> is_success r \<or> length (content r) < MIN_ICON_SIZE then False
      else (list_ex (\<lambda>ico_type. str_in ico_type (get_content_type r)) ICON_CONTENT_TYPES \<or>
            list_ex (\<lambda>png_type. str_in png_type (get_content_type r)) PNG_CONTENT_TYPES))"

subsection \<open>Exceptions and the outside world\<close>

text \<open>
  A call that may raise returns \<open>exn + 'a\<close>, with \<open>Inl\<close> the exception.
  \<open>RequestError\<close> is \<open>httpx.RequestError\<close>, the only class the locator catches;
  \<open>ValueError\<close> is what the URL functions raise; \<open>OSError\<close> is what the file system
  raises; \<open>OtherError\<close> is any other \<open>Exception\<close>.
\<close>

datatype exn = RequestError | ValueError | OSError | OtherError

text \<open>
  An element of the parsed page, as the script reads it: the tag name, the \<open>rel\<close>
  attribute (the parser keeps it as the list of its whitespace-separated values) and the
  \<open>href\<close> attribute. The page is the list of its elements in document order.
\<close>

record element =
  tag_name :: string
  rel :: "string list option"
  href :: "string option"

text \<open>What writing a file may do: succeed, fail on opening, or fail after part was written.\<close>

datatype write_outcome = Written | OpenFailed | WriteFailed bytes

text \<open>
  The libraries and the world the script runs against.
  \<^item> \<open>urlparse u\<close>: the scheme and the netloc of \<open>urllib.parse.urlparse(u)\<close>;
  \<^item> \<open>urljoin b h\<close>: \<open>urllib.parse.urljoin(b, h)\<close>;
  \<^item> \<open>http_get n u\<close>: the outcome of the session's GET of \<open>u\<close> when \<open>n\<close> requests were
    issued before it (the same address may answer differently later);
  \<^item> \<open>BeautifulSoup t\<close>: the elements of \<open>BeautifulSoup(t, "html.parser")\<close>;
  \<^item> \<open>Image_open\<close>, \<open>image_mode\<close>, \<open>image_convert\<close>, \<open>image_save\<close>: \<open>Image.open\<close>,
    \<open>.mode\<close>, \<open>.convert(mode)\<close> and \<open>.save(buffer, format, sizes)\<close> of the imaging
    library, the last one returning the bytes of the buffer;
  \<^item> \<open>disk_write f d\<close>: what opening \<open>f\<close> for writing and writing \<open>d\<close> does;
  \<^item> \<open>exists_error f\<close>: the exception \<open>filepath.exists()\<close> raises for the file name
    \<open>f\<close> (an \<open>OSError\<close>, for instance on a name that is too long), or \<open>None\<close> when the
    test answers;
  \<^item> \<open>print_error vs\<close>: the exception \<open>print\<close> raises on a message with the
    interpolated values \<open>vs\<close>, or \<open>None\<close> when the message is printed.
\<close>

record 'img env =
  urlparse :: "string \<Rightarrow> exn + (string \<times> string)"
  urljoin :: "string \<Rightarrow> string \<Rightarrow> exn + string"
  http_get :: "nat \<Rightarrow> string \<Rightarrow> exn + response"
  BeautifulSoup :: "string \<Rightarrow> exn + element list"
  Image_open :: "bytes \<Rightarrow> exn + 'img"
  image_mode :: "'img \<Rightarrow> string"
  image_convert :: "'img \<Rightarrow> string \<Rightarrow> exn + 'img"
  image_save :: "'img \<Rightarrow> string \<Rightarrow> (nat \<times> nat) list \<Rightarrow> exn + bytes"
  disk_write :: "string \<Rightarrow> bytes \<Rightarrow> write_outcome"
  exists_error :: "string \<Rightarrow> exn option"
  print_error :: "string list \<Rightarrow> exn option"

text \<open>
  The state the script changes: the files of the output directory, by file name, and the
  log of the addresses requested so far, oldest first.
\<close>

type_synonym files = "string \<rightharpoonup> bytes"
type_synonym log = "string list"

text \<open>\<open>session.get(url, ...)\<close>: one more request in the log.\<close>

definition session_get :: "'img env \<Rightarrow> log \<Rightarrow> string \<Rightarrow> (exn + response) \<times> log" where
  "session_get env lg u = (http_get env (length lg) u, lg @ [u])"

text \<open>\<open>except httpx.RequestError: pass\<close> followed by \<open>return None\<close>.\<close>

definition catch_request_error :: "exn + string option \<Rightarrow> exn + string option" where
  "catch_request_error r = (case r of Inl RequestError \<Rightarrow> Inr None | _ \<Rightarrow> r)"

subsection \<open>Building the task list\<close>

text \<open>
  The dataset: categories, each with its sites, each site with the values under its keys
  \<open>name\<close> and \<open>url\<close>, if present. A missing \<open>categories\<close> or \<open>sites\<close> key reads as
  the empty list, as \<open>.get(key, [])\<close> does.
\<close>

record site =
  name_key :: "string option"
  url_key :: "string option"

record category =
  sites :: "site list"

record dataset =
  categories :: "category list"

text \<open>One task: the dictionary \<open>get_all_http_icons\<close> appends.\<close>

record icon_info =
  url :: string
  domain :: string
  filename :: string
  site_name :: string
  site_url :: string

text \<open>\<open>site.get(key, "")\<close>\<close>

definition get_or_empty :: "string option \<Rightarrow> string" where
  "get_or_empty v = (case v of None \<Rightarrow> [] | Some s \<Rightarrow> s)"

text \<open>
  The body of the inner loop for one site that passed the \<open>startswith("http")\<close> test:
  the domain, then the dictionary. \<open>parts[-1]\<close> is \<open>last parts\<close>: \<open>split\<close> never returns
  an empty list.
\<close>

definition extract_domain :: "'img env \<Rightarrow> site \<Rightarrow> exn + string" where
  "extract_domain env s =
     (let icon_url = get_or_empty (url_key s) in
      if str_in ''favicon/'' icon_url
      then Inr (last (str_split icon_url ''/favicon/''))
      else (case urlparse env (get_or_empty (url_key s)) of
              Inl e \<Rightarrow> Inl e
            | Inr (scheme, netloc) \<Rightarrow> Inr netloc))"

definition make_icon_info :: "site \<Rightarrow> string \<Rightarrow> icon_info" where
  "make_icon_info s d =
     \<lparr>url = get_or_empty (url_key s), domain = d, filename = d @ ''.ico'',
      site_name = get_or_empty (name_key s), site_url = get_or_empty (url_key s)\<rparr>"

text \<open>The loop over the sites; an exception of \<open>urlparse\<close> leaves the loop.\<close>

fun sites_http_icons :: "'img env \<Rightarrow> site list \<Rightarrow> exn + icon_info list" where
  "sites_http_icons env [] = Inr []"
| "sites_http_icons env (s # ss) =
     (if \<not> startswith (get_or_empty (url_key s)) ''http'' then sites_http_icons env ss
      else (case extract_domain env s of
              Inl e \<Rightarrow> Inl e
            | Inr d \<Rightarrow>
                (case sites_http_icons env ss of
                   Inl e \<Rightarrow> Inl e
                 | Inr rest \<Rightarrow> Inr (make_icon_info s d # rest))))"

text \<open>
  \<open>get_all_http_icons\<close>: the two nested loops visit the sites of all categories in
  order, which is one loop over the concatenation.
\<close>

definition all_sites :: "dataset \<Rightarrow> site list" where
  "all_sites data = concat (map sites (categories data))"

definition get_all_http_icons :: "'img env \<Rightarrow> dataset \<Rightarrow> exn + icon_info list" where
  "get_all_http_icons env data = sites_http_icons env (all_sites data)"

subsection \<open>Converting PNG to ICO\<close>

text \<open>\<open>convert_png_to_ico\<close>: any exception is caught and the empty bytes returned.\<close>

definition convert_png_to_ico :: "'img env \<Rightarrow> bytes \<Rightarrow> bytes" where
  "convert_png_to_ico env png_data =
     (case Image_open env png_data of
        Inl e \<Rightarrow> []
      | Inr png_image \<Rightarrow>
          (case (if image_mode env png_image \<noteq> ''RGBA''
                 then image_convert env png_image ''RGBA'' else Inr png_image) of
             Inl e \<Rightarrow> []
           | Inr rgba_image \<Rightarrow>
               (case image_save env rgba_image ''ICO'' [(32, 32)] of
                  Inl e \<Rightarrow> []
                | Inr ico \<Rightarrow> ico)))"

subsection \<open>Locating the icon\<close>

text \<open>\<open>_try_favicon_ico\<close>\<close>

definition try_favicon_ico :: "'img env \<Rightarrow> string \<Rightarrow> log \<Rightarrow> (exn + string option) \<times> log" where
  "try_favicon_ico env base_url lg =
     (let ico_url = base_url @ ''/favicon.ico'' in
      case session_get env lg ico_url of
        (Inl e, lg') \<Rightarrow> (catch_request_error (Inl e), lg')
      | (Inr resp, lg') \<Rightarrow>
          (if is_valid_icon_response resp then (Inr (Some ico_url), lg') else (Inr None, lg')))"

text \<open>\<open>" ".join(values)\<close>\<close>

fun join_space :: "string list \<Rightarrow> string" where
  "join_space [] = []"
| "join_space [v] = v"
| "join_space (v # w # vs) = v @ '' '' @ join_space (w # vs)"

text \<open>
  \<open>soup.find("link", rel=r)\<close>: the first element of the page, in document order, named
  \<open>link\<close> whose \<open>rel\<close> attribute matches \<open>r\<close>. The parser's rule for a multi-valued
  attribute: one of the values is \<open>r\<close>, or the values joined by single spaces are \<open>r\<close>.
\<close>

definition rel_matches :: "string list option \<Rightarrow> string \<Rightarrow> bool" where
  "rel_matches vs r = (case vs of None \<Rightarrow> False | Some vals \<Rightarrow> r \<in> set vals \<or> join_space vals = r)"

definition soup_find_link :: "element list \<Rightarrow> string \<Rightarrow> element option" where
  "soup_find_link soup r = find (\<lambda>e. tag_name e = ''link'' \<and> rel_matches (rel e) r) soup"

text \<open>
  The \<open>for rel in FAVICON_RELS\<close> loop of \<open>_try_html_favicon\<close>, on the rel values still
  to try. \<open>tag and tag.get("href")\<close> holds when a tag was found and its \<open>href\<close> is present
  and not empty.
\<close>

fun try_rels :: "'img env \<Rightarrow> element list \<Rightarrow> string \<Rightarrow> string list \<Rightarrow> log \<Rightarrow>
    (exn + string option) \<times> log" where
  "try_rels env soup base_url [] lg = (Inr None, lg)"
| "try_rels env soup base_url (r # rels) lg =
     (case soup_find_link soup r of
        None \<Rightarrow> try_rels env soup base_url rels lg
      | Some tag \<Rightarrow>
          (if get_or_empty (href tag) = [] then try_rels env soup base_url rels lg
           else (case urljoin env base_url (get_or_empty (href tag)) of
                   Inl e \<Rightarrow> (Inl e, lg)
                 | Inr icon_url \<Rightarrow>
                     (case session_get env lg icon_url of
                        (Inl e, lg') \<Rightarrow> (Inl e, lg')
                      | (Inr resp, lg') \<Rightarrow>
                          (if is_valid_icon_response resp then (Inr (Some icon_url), lg')
                           else try_rels env soup base_url rels lg')))))"

text \<open>\<open>_try_html_favicon\<close>: the whole body is inside the \<open>try\<close>.\<close>

definition try_html_favicon :: "'img env \<Rightarrow> string \<Rightarrow> string \<Rightarrow> log \<Rightarrow>
    (exn + string option) \<times> log" where
  "try_html_favicon env s_url base_url lg =
     (case session_get env lg s_url of
        (Inl e, lg1) \<Rightarrow> (catch_request_error (Inl e), lg1)
      | (Inr html_resp, lg1) \<Rightarrow>
          (case BeautifulSoup env (resp_text html_resp) of
             Inl e \<Rightarrow> (catch_request_error (Inl e), lg1)
           | Inr soup \<Rightarrow>
               (case try_rels env soup base_url FAVICON_RELS lg1 of
                  (res, lg2) \<Rightarrow> (catch_request_error res, lg2))))"

text \<open>
  \<open>resolve_favicon_url\<close>. \<open>if icon_url:\<close> holds for a string that is not empty.
\<close>

definition resolve_favicon_url :: "'img env \<Rightarrow> string \<Rightarrow> log \<Rightarrow> (exn + string option) \<times> log" where
  "resolve_favicon_url env s_url lg =
     (case urlparse env s_url of
        Inl e \<Rightarrow> (Inl e, lg)
      | Inr (scheme, netloc) \<Rightarrow>
          (let base_url = scheme @ ''://'' @ netloc in
           case try_favicon_ico env base_url lg of
             (Inl e, lg') \<Rightarrow> (Inl e, lg')
           | (Inr icon_url, lg') \<Rightarrow>
               (if icon_url \<noteq> None \<and> icon_url \<noteq> Some [] then (Inr icon_url, lg')
                else try_html_favicon env s_url base_url lg')))"

subsection \<open>Downloading one icon\<close>

text \<open>\<open>with open(filepath, "wb") as f: f.write(icon_data)\<close>\<close>

definition write_file :: "'img env \<Rightarrow> files \<Rightarrow> string \<Rightarrow> bytes \<Rightarrow> bool \<times> files" where
  "write_file env fs f d =
     (case disk_write env f d of
        Written \<Rightarrow> (True, fs(f \<mapsto> d))
      | OpenFailed \<Rightarrow> (False, fs)
      | WriteFailed part \<Rightarrow> (False, fs(f \<mapsto> part)))"

text \<open>
  \<open>filepath.exists()\<close>: the test raises, or it tells whether the output directory has
  the file.
\<close>

definition path_exists :: "'img env \<Rightarrow> files \<Rightarrow> string \<Rightarrow> exn + bool" where
  "path_exists env fs f =
     (case exists_error env f of Some e \<Rightarrow> Inl e | None \<Rightarrow> Inr (fs f \<noteq> None))"

text \<open>
  The \<open>try\<close> block of \<open>download_icon\<close> with its two handlers: every exception raised
  inside is caught and the result is \<open>False\<close>. \<open>raise_for_status\<close> raises unless the
  status is a success.
\<close>

definition download_try :: "'img env \<Rightarrow> icon_info \<Rightarrow> files \<times> log \<Rightarrow> bool \<times> files \<times> log" where
  "download_try env info w =
     (case w of (fs, lg) \<Rightarrow>
        (case resolve_favicon_url env (url info) lg of
           (Inl e, lg1) \<Rightarrow> (False, fs, lg1)
         | (Inr icon_url, lg1) \<Rightarrow>
             (if icon_url = None \<or> icon_url = Some [] then (False, fs, lg1)
              else (case session_get env lg1 (the icon_url) of
                      (Inl e, lg2) \<Rightarrow> (False, fs, lg2)
                    | (Inr resp, lg2) \<Rightarrow>
                        (if \<not> is_success resp then (False, fs, lg2)
                         else if list_ex (\<lambda>png_type. str_in png_type (get_content_type resp))
                                   PNG_CONTENT_TYPES
                         then (let icon_data = convert_png_to_ico env (content resp) in
                               if icon_data = [] then (False, fs, lg2)
                               else (case write_file env fs (filename info) icon_data of
                                       (ok, fs') \<Rightarrow> (ok, fs', lg2)))
                         else (case write_file env fs (filename info) (content resp) of
                                 (ok, fs') \<Rightarrow> (ok, fs', lg2)))))))"

text \<open>
  \<open>download_icon\<close>. The existence test and the message printed after it (that the file
  is skipped, or that the icon is fetched) stand before the \<open>try\<close> block: an exception
  raised by them leaves the function, with no request issued and no file written.
\<close>

definition download_icon :: "'img env \<Rightarrow> icon_info \<Rightarrow> files \<times> log \<Rightarrow>
    exn + bool \<times> files \<times> log" where
  "download_icon env info w =
     (case w of (fs, lg) \<Rightarrow>
        (case path_exists env fs (filename info) of
           Inl e \<Rightarrow> Inl e
         | Inr found \<Rightarrow>
             (if found
              then (case print_error env [filename info] of
                      Some e \<Rightarrow> Inl e
                    | None \<Rightarrow> Inr (True, fs, lg))
              else (case print_error env [site_name info, filename info] of
                      Some e \<Rightarrow> Inl e
                    | None \<Rightarrow> Inr (download_try env info (fs, lg))))))"

subsection \<open>The batch\<close>

text \<open>
  The loop of \<open>main\<close> over the task list, from the counters and the list of failed
  addresses collected so far. \<open>main\<close> has no handler around the call of \<open>download_icon\<close>:
  an exception that leaves \<open>download_icon\<close> ends the loop, in the state the tasks before
  have left, and no result is produced. (\<open>main\<close> returns before the loop when the task list
  is empty; the loop does nothing on the empty list either.)
\<close>

fun batch_loop :: "'img env \<Rightarrow> icon_info list \<Rightarrow> nat \<times> nat \<times> string list \<Rightarrow> files \<times> log \<Rightarrow>
    (exn \<times> files \<times> log) + ((nat \<times> nat \<times> string list) \<times> files \<times> log)" where
  "batch_loop env [] acc w = Inr (acc, w)"
| "batch_loop env (info # rest) (success_count, failed_count, failed_urls) w =
     (case download_icon env info w of
        Inl e \<Rightarrow> Inl (e, w)
      | Inr (ok, w') \<Rightarrow>
          (if ok then batch_loop env rest (success_count + 1, failed_count, failed_urls) w'
           else batch_loop env rest
                  (success_count, failed_count + 1, failed_urls @ [url info]) w'))"

definition run_batch :: "'img env \<Rightarrow> icon_info list \<Rightarrow> files \<times> log \<Rightarrow>
    (exn \<times> files \<times> log) + ((nat \<times> nat \<times> string list) \<times> files \<times> log)" where
  "run_batch env tasks w = batch_loop env tasks (0, 0, []) w"

subsection \<open>The outcome of every task of a batch\<close>

text \<open>
  The results of \<open>download_icon\<close> along the loop, in the order of the task list, up to the
  first task on which it raises: each task is run in the state the tasks before it have
  left.
\<close>

fun task_outcomes :: "'img env \<Rightarrow> icon_info list \<Rightarrow> files \<times> log \<Rightarrow> bool list" where
  "task_outcomes env [] w = []"
| "task_outcomes env (info # rest) w =
     (case download_icon env info w of
        Inl e \<Rightarrow> []
      | Inr (ok, w') \<Rightarrow> ok # task_outcomes env rest w')"

subsection \<open>An example world\<close>

text \<open>
  A small world to run the script in: a reading of \<open>urlparse\<close> on plain ASCII addresses,
  a handful of sites, a decoder that rejects payloads starting with the byte 255, and a
  disk that cannot open a file name with a slash in it (the directory is missing) and
  raises \<open>OSError\<close> on a file name of more than 255 characters, in the existence test as
  in opening. Every message is printed. The theorems do not depend on it; it gives them
  concrete inputs.
\<close>

definition is_alpha :: "char \<Rightarrow> bool" where
  "is_alpha c = (c \<in> set ''abcdefghijklmnopqrstuvwxyzABCDEFGHIJKLMNOPQRSTUVWXYZ'')"

definition is_scheme_char :: "char \<Rightarrow> bool" where
  "is_scheme_char c = (is_alpha c \<or> c \<in> set ''0123456789+-.'')"

definition char_lower :: "char \<Rightarrow> char" where
  "char_lower c =
     (if c \<in> set ''ABCDEFGHIJKLMNOPQRSTUVWXYZ'' then char_of (of_char c + (32::nat)) else c)"

text \<open>
  The scheme is the text before the first colon when that text is not empty, starts with
  a letter and consists of scheme characters; the netloc is what follows a leading \<open>//\<close>
  of the remainder, up to the next \<open>/\<close>, \<open>?\<close> or \<open>#\<close>. An unbalanced square bracket
  in the netloc raises \<open>ValueError\<close>.
\<close>

definition urlparse_plain :: "string \<Rightarrow> exn + (string \<times> string)" where
  "urlparse_plain u =
     (let pre = takeWhile (\<lambda>c. c \<noteq> CHR '':'') u;
          has_scheme = (length pre < length u \<and> pre \<noteq> [] \<and> is_alpha (hd pre) \<and>
                        list_all is_scheme_char pre);
          scheme = (if has_scheme then map char_lower pre else []);
          remainder = (if has_scheme then drop (length pre + 1) u else u);
          netloc = (if startswith remainder ''//''
                    then takeWhile (\<lambda>c. c \<notin> set ''/?#'') (drop 2 remainder) else [])
      in if (CHR ''['' \<in> set netloc) \<noteq> (CHR '']'' \<in> set netloc) then Inl ValueError
         else Inr (scheme, netloc))"

definition ok_response :: "string \<Rightarrow> bytes \<Rightarrow> string \<Rightarrow> response" where
  "ok_response ct body txt =
     \<lparr>status_code = 200, content = body, resp_text = txt, content_type = Some ct\<rparr>"

definition error_response :: "nat \<Rightarrow> response" where
  "error_response code =
     \<lparr>status_code = code, content = [], resp_text = [], content_type = Some ''text/html''\<rparr>"

definition example_get :: "nat \<Rightarrow> string \<Rightarrow> exn + response" where
  "example_get n u =
     (if u = ''https://example.com/favicon.ico''
        then Inr (ok_response ''image/x-icon'' (replicate 100 1) [])
      else if u = ''https://png.example/favicon.ico''
        then Inr (ok_response ''text/html'' (replicate 2048 60) ''not found'')
      else if u = ''https://png.example/''
        then Inr (ok_response ''text/html; charset=utf-8'' (replicate 300 60) ''apple page'')
      else if u = ''https://png.example/a.png''
        then Inr (ok_response ''image/png'' (replicate 120 7) [])
      else if u = ''https://two.example/''
        then Inr (ok_response ''text/html'' (replicate 300 60) ''two links page'')
      else if u = ''https://two.example/bad.ico''
        then Inr (ok_response ''image/x-icon'' (replicate 10 1) [])
      else if u = ''https://two.example/a.png''
        then Inr (ok_response ''image/png'' (replicate 120 7) [])
      else if u = ''https://flaky.example/favicon.ico''
        then (if n = 0 then Inr (ok_response ''image/x-icon'' (replicate 100 1) [])
              else Inr (error_response 503))
      else if u = ''https://corrupt.example/favicon.ico''
        then Inr (ok_response ''image/png'' (replicate 100 255) [])
      else if startswith u ''https://down.example''
        then Inl RequestError
      else Inr (error_response 404))"

definition link_element :: "string list \<Rightarrow> string \<Rightarrow> element" where
  "link_element rels h = \<lparr>tag_name = ''link'', rel = Some rels, href = Some h\<rparr>"

definition example_soup :: "string \<Rightarrow> exn + element list" where
  "example_soup t =
     (if t = ''apple page''
        then Inr [\<lparr>tag_name = ''title'', rel = None, href = None\<rparr>,
                  link_element [''stylesheet''] ''/main.css'',
                  link_element [''apple-touch-icon''] ''/a.png'']
      else if t = ''two links page''
        then Inr [link_element [''icon''] ''/bad.ico'',
                  link_element [''apple-touch-icon''] ''/a.png'']
      else Inr [])"

definition example_env :: "(string \<times> bytes) env" where
  "example_env =
     \<lparr>urlparse = urlparse_plain,
      urljoin = (\<lambda>b h. Inr (if startswith h ''/'' then b @ h else h)),
      http_get = example_get,
      BeautifulSoup = example_soup,
      Image_open = (\<lambda>d. if d = [] \<or> hd d = 255 then Inl OtherError else Inr (''RGB'', d)),
      image_mode = fst,
      image_convert = (\<lambda>img m. Inr (m, snd img)),
      image_save = (\<lambda>img fmt sizes. Inr ([0, 0, 1, 0] @ snd img)),
      disk_write = (\<lambda>f d. if CHR ''/'' \<in> set f \<or> 255 < length f then OpenFailed else Written),
      exists_error = (\<lambda>f. if 255 < length f then Some OSError else None),
      print_error = (\<lambda>vs. None)\<rparr>"

definition example_task :: "string \<Rightarrow> string \<Rightarrow> icon_info" where
  "example_task u d =
     \<lparr>url = u, domain = d, filename = d @ ''.ico'', site_name = d, site_url = u\<rparr>"

text \<open>A name of 300 characters, and a dataset whose first address ends in it.\<close>

definition long_name :: string where
  "long_name = replicate 300 CHR ''a''"

definition long_name_dataset :: dataset where
  "long_name_dataset =
     \<lparr>categories =
        [\<lparr>sites = [\<lparr>name_key = Some ''Long'',
                     url_key = Some (''http://icon.example/favicon/'' @ long_name)\<rparr>,
                   \<lparr>name_key = Some ''Example'', url_key = Some ''https://example.com/page''\<rparr>]\<rparr>]\<rparr>"

definition example_tasks :: "icon_info list" where
  "example_tasks =
     [example_task ''https://example.com/page'' ''example.com'',
      example_task ''https://down.example/'' ''down.example'',
      example_task ''https://png.example/'' ''png.example'']"

subsection \<open>The candidates of the HTML step\<close>

text \<open>
  The reference the loop of \<open>_try_html_favicon\<close> tries for one rel value: the \<open>href\<close> of
  the first \<open>link\<close> element matching it, when there is such an element and its \<open>href\<close>
  is present and not empty. \<open>candidates\<close> lists them in the order of \<open>FAVICON_RELS\<close>.
\<close>

definition rel_candidate :: "element list \<Rightarrow> string \<Rightarrow> string option" where
  "rel_candidate soup r =
     (case soup_find_link soup r of
        None \<Rightarrow> None
      | Some tag \<Rightarrow> (if get_or_empty (href tag) = [] then None else Some (get_or_empty (href tag))))"

definition candidates :: "element list \<Rightarrow> string list" where
  "candidates soup = List.map_filter (rel_candidate soup) FAVICON_RELS"

text \<open>
  The first tag found overall: the tag found for the first rel value, in the order of
  \<open>FAVICON_RELS\<close>, that any \<open>link\<close> element matches.
\<close>

definition first_link_overall :: "element list \<Rightarrow> element option" where
  "first_link_overall soup =
     (case List.map_filter (soup_find_link soup) FAVICON_RELS of
        [] \<Rightarrow> None
      | tag # _ \<Rightarrow> Some tag)"

subsection \<open>Absolute addresses, in the words of the specification\<close>

text \<open>
  An absolute \<open>http\<close> or \<open>https\<close> address has a scheme and an authority: it begins with
  \<open>http://\<close> or \<open>https://\<close> and the text that follows, up to the next \<open>/\<close>, \<open>?\<close> or
  \<open>#\<close>, is not empty. This is the specification's notion, not a function of the script.
\<close>

definition spec_absolute_http_url :: "string \<Rightarrow> bool" where
  "spec_absolute_http_url u =
     (startswith u ''http://'' \<and> takeWhile (\<lambda>c. c \<notin> set ''/?#'') (drop 7 u) \<noteq> [] \<or>
      startswith u ''https://'' \<and> takeWhile (\<lambda>c. c \<notin> set ''/?#'') (drop 8 u) \<noteq> [])"

definition example_dataset :: dataset where
  "example_dataset =
     \<lparr>categories =
        [\<lparr>sites = [\<lparr>name_key = Some ''Foo'', url_key = Some ''http://icon.example/favicon/foo.com''\<rparr>,
                   \<lparr>name_key = Some ''Local'', url_key = Some ''/local/icon.png''\<rparr>]\<rparr>,
         \<lparr>sites = [\<lparr>name_key = Some ''Example'', url_key = Some ''https://example.com/page''\<rparr>,
                   \<lparr>name_key = Some ''Mirror'', url_key = Some ''//cdn.example/x''\<rparr>,
                   \<lparr>name_key = Some ''Nowhere'', url_key = None\<rparr>]\<rparr>]\<rparr>"

section \<open>Properties\<close>

subsection \<open>Strings\<close>

lemma startswith_iff: "startswith s p \<longleftrightarrow> (\<exists>q. s = p @ q)"
proof
  assume "startswith s p"
  then have "s = p @ drop (length p) s"
    by (metis append_take_drop_id startswith_def)
  then show "\<exists>q. s = p @ q" ..
next
  assume "\<exists>q. s = p @ q"
  then show "startswith s p" by (auto simp: startswith_def)
qed

lemma str_in_iff: "str_in sub s \<longleftrightarrow> (\<exists>p q. s = p @ sub @ q)"
proof (induction s)
  case Nil
  then show ?case by auto
next
  case (Cons c cs)
  show ?case
  proof
    assume "str_in sub (c # cs)"
    then consider "startswith (c # cs) sub" | "str_in sub cs" by auto
    then show "\<exists>p q. c # cs = p @ sub @ q"
    proof cases
      case 1
      then obtain q where "c # cs = sub @ q" by (auto simp: startswith_iff)
      then have "c # cs = [] @ sub @ q" by simp
      then show ?thesis by blast
    next
      case 2
      then obtain p q where "cs = p @ sub @ q" using Cons.IH by auto
      then have "c # cs = (c # p) @ sub @ q" by simp
      then show ?thesis by blast
    qed
  next
    assume "\<exists>p q. c # cs = p @ sub @ q"
    then obtain p q where pq: "c # cs = p @ sub @ q" by auto
    show "str_in sub (c # cs)"
    proof (cases p)
      case Nil
      with pq have "startswith (c # cs) sub" by (auto simp: startswith_iff)
      then show ?thesis by simp
    next
      case (Cons a p')
      with pq have "cs = p' @ sub @ q" by simp
      then have "str_in sub cs" using Cons.IH by auto
      then show ?thesis by simp
    qed
  qed
qed

subsection \<open>The validity check\<close>

text \<open>
  Claim C1. A response is accepted as an icon exactly when its status is a success status,
  its body has at least 100 bytes and its Content-Type header contains an icon MIME type
  (\<open>image/x-icon\<close>, \<open>image/vnd.microsoft.icon\<close>) or the PNG MIME type (\<open>image/png\<close>). In
  particular a 200 response declared \<open>text/html\<close> is rejected, and so is every response
  with fewer than 100 body bytes, whatever its content type.
\<close>

theorem valid_icon_response_iff:
  "(is_valid_icon_response r \<longleftrightarrow>
      is_success r \<and> 100 \<le> length (content r) \<and>
      (str_in ''image/x-icon'' (get_content_type r) \<or>
       str_in ''image/vnd.microsoft.icon'' (get_content_type r) \<or>
       str_in ''image/png'' (get_content_type r))) \<and>
   (status_code r = 200 \<and> content_type r = Some ''text/html'' \<longrightarrow>
      \<not> is_valid_icon_response r) \<and>
   (length (content r) < 100 \<longrightarrow> \<not> is_valid_icon_response r)"
proof -
  have iff: "is_valid_icon_response r \<longleftrightarrow>
      is_success r \<and> 100 \<le> length (content r) \<and>
      (str_in ''image/x-icon'' (get_content_type r) \<or>
       str_in ''image/vnd.microsoft.icon'' (get_content_type r) \<or>
       str_in ''image/png'' (get_content_type r))"
    by (auto simp: is_valid_icon_response_def MIN_ICON_SIZE_def ICON_CONTENT_TYPES_def
        PNG_CONTENT_TYPES_def)
  have html: "\<not> str_in ''image/x-icon'' ''text/html''"
    "\<not> str_in ''image/vnd.microsoft.icon'' ''text/html''"
    "\<not> str_in ''image/png'' ''text/html''"
    by (simp_all add: startswith_def)
  have "\<not> is_valid_icon_response r"
    if "status_code r = 200 \<and> content_type r = Some ''text/html''"
    using that html by (simp add: iff get_content_type_def)
  moreover have "\<not> is_valid_icon_response r" if "length (content r) < 100"
    using that by (simp add: iff)
  ultimately show ?thesis using iff by blast
qed

theorem valid_icon_response_iff_witness:
  "\<not> is_valid_icon_response
       \<lparr>status_code = 200, content = replicate 2048 0, resp_text = ''<html></html>'',
        content_type = Some ''text/html''\<rparr> \<and>
   \<not> is_valid_icon_response
       \<lparr>status_code = 200, content = replicate 99 0, resp_text = [],
        content_type = Some ''image/x-icon''\<rparr> \<and>
   is_valid_icon_response
       \<lparr>status_code = 200, content = replicate 100 0, resp_text = [],
        content_type = Some ''image/png''\<rparr>"
proof -
  let ?html = "\<lparr>status_code = 200, content = replicate 2048 (0::8 word),
                 resp_text = ''<html></html>'', content_type = Some ''text/html''\<rparr>"
  let ?small = "\<lparr>status_code = 200, content = replicate 99 (0::8 word), resp_text = [],
                  content_type = Some ''image/x-icon''\<rparr>"
  let ?png = "\<lparr>status_code = 200, content = replicate 100 (0::8 word), resp_text = [],
                content_type = Some ''image/png''\<rparr>"
  have "\<not> is_valid_icon_response ?html"
    using valid_icon_response_iff [of ?html, THEN conjunct2, THEN conjunct1] by simp
  moreover have "\<not> is_valid_icon_response ?small"
    using valid_icon_response_iff [of ?small, THEN conjunct2, THEN conjunct2] by simp
  moreover have "is_valid_icon_response ?png"
    using valid_icon_response_iff [of ?png, THEN conjunct1]
    by (simp add: is_success_def get_content_type_def startswith_def)
  ultimately show ?thesis by blast
qed

subsection \<open>The batch\<close>

lemma download_icon_raises_iff:
  "download_icon env info (fs, lg) = Inl e \<longleftrightarrow>
     exists_error env (filename info) = Some e \<or>
     exists_error env (filename info) = None \<and>
     print_error env (if fs (filename info) \<noteq> None then [filename info]
                      else [site_name info, filename info]) = Some e"
  by (auto simp: download_icon_def path_exists_def split: option.splits)

lemma batch_loop_raises:
  "download_icon env info w = Inl e \<Longrightarrow> batch_loop env (info # rest) acc w = Inl (e, w)"
  by (cases acc) auto

lemma length_task_outcomes:
  "batch_loop env tasks acc w = Inr r \<Longrightarrow> length (task_outcomes env tasks w) = length tasks"
proof (induction tasks arbitrary: acc w)
  case Nil
  then show ?case by simp
next
  case (Cons x xs)
  obtain sc fc fu where acc: "acc = (sc, fc, fu)" by (cases acc) auto
  from Cons.prems obtain ok w1 where d: "download_icon env x w = Inr (ok, w1)"
    unfolding acc by (auto split: sum.splits)
  with Cons.prems obtain acc1 where "batch_loop env xs acc1 w1 = Inr r"
    unfolding acc by (auto split: if_splits)
  from Cons.IH [OF this] d show ?case by simp
qed

lemma batch_loop_counts:
  "batch_loop env tasks (sc, fc, fu) w = Inr ((sc', fc', fu'), w') \<Longrightarrow>
   sc' = sc + length (filter (\<lambda>ok. ok) (task_outcomes env tasks w)) \<and>
   fc' = fc + length (filter Not (task_outcomes env tasks w)) \<and>
   fu' = fu @ map (\<lambda>p. url (fst p)) (filter (\<lambda>p. \<not> snd p) (zip tasks (task_outcomes env tasks w)))"
proof (induction tasks arbitrary: sc fc fu w)
  case Nil
  then show ?case by simp
next
  case (Cons x xs)
  from Cons.prems obtain ok w1 where d: "download_icon env x w = Inr (ok, w1)"
    by (auto split: sum.splits)
  show ?case
  proof (cases ok)
    case True
    with Cons.prems d have "batch_loop env xs (sc + 1, fc, fu) w1 = Inr ((sc', fc', fu'), w')"
      by simp
    from Cons.IH [OF this] show ?thesis using d True by simp
  next
    case False
    with Cons.prems d
    have "batch_loop env xs (sc, fc + 1, fu @ [url x]) w1 = Inr ((sc', fc', fu'), w')"
      by simp
    from Cons.IH [OF this] show ?thesis using d False by simp
  qed
qed

lemma filter_count_bool:
  "length (filter (\<lambda>ok. ok) bs) + length (filter Not bs) = length bs"
  by (induction bs) auto

text \<open>
  When no exception leaves \<open>download_icon\<close>, the batch has a result: every task has an
  outcome, the counters are the numbers of tasks that succeeded and failed, and the list of
  failed addresses is the addresses of the failed tasks in the order of the task list.
\<close>

lemma run_batch_counts:
  assumes "run_batch env tasks w = Inr ((success_count, failed_count, failed_urls), w')"
  shows "length (task_outcomes env tasks w) = length tasks \<and>
         success_count = length (filter (\<lambda>ok. ok) (task_outcomes env tasks w)) \<and>
         failed_count = length (filter Not (task_outcomes env tasks w)) \<and>
         success_count + failed_count = length tasks \<and>
         failed_urls =
           map (\<lambda>p. url (fst p))
             (filter (\<lambda>p. \<not> snd p) (zip tasks (task_outcomes env tasks w)))"
proof -
  from assms
  have loop: "batch_loop env tasks (0, 0, []) w =
      Inr ((success_count, failed_count, failed_urls), w')"
    by (simp add: run_batch_def)
  note c = batch_loop_counts [OF loop]
  have len: "length (task_outcomes env tasks w) = length tasks"
    by (rule length_task_outcomes [OF loop])
  have "success_count + failed_count = length tasks"
    using c filter_count_bool [of "task_outcomes env tasks w"] len by simp
  with c len show ?thesis by simp
qed

subsection \<open>Evaluating the example world\<close>

lemmas example_defs =
  example_env_def example_get_def example_soup_def example_task_def ok_response_def
  error_response_def link_element_def urlparse_plain_def is_alpha_def is_scheme_char_def
  char_lower_def

lemmas script_defs =
  download_icon_def download_try_def path_exists_def resolve_favicon_url_def try_favicon_ico_def try_html_favicon_def
  session_get_def catch_request_error_def is_valid_icon_response_def is_success_def
  get_content_type_def get_or_empty_def MIN_ICON_SIZE_def ICON_CONTENT_TYPES_def
  PNG_CONTENT_TYPES_def FAVICON_RELS_def soup_find_link_def rel_matches_def write_file_def
  convert_png_to_ico_def startswith_def

lemma example_resolve_ico:
  "resolve_favicon_url example_env ''https://example.com/page'' [] =
     (Inr (Some ''https://example.com/favicon.ico''), [''https://example.com/favicon.ico''])"
  by (simp add: example_defs script_defs Let_def)

lemma example_resolve_png:
  "resolve_favicon_url example_env ''https://png.example/'' [] =
     (Inr (Some ''https://png.example/a.png''),
      [''https://png.example/favicon.ico'', ''https://png.example/'', ''https://png.example/a.png''])"
  by (simp add: example_defs script_defs Let_def)

lemma example_resolve_two:
  "resolve_favicon_url example_env ''https://two.example/'' [] =
     (Inr (Some ''https://two.example/a.png''),
      [''https://two.example/favicon.ico'', ''https://two.example/'',
       ''https://two.example/bad.ico'', ''https://two.example/a.png''])"
  by (simp add: example_defs script_defs Let_def)

lemma example_resolve_down:
  "resolve_favicon_url example_env ''https://down.example/'' [] =
     (Inr None, [''https://down.example/favicon.ico'', ''https://down.example/''])"
  by (simp add: example_defs script_defs Let_def)

subsection \<open>Skipping a task whose file exists\<close>



subsection \<open>Failing before the write\<close>

text \<open>
  Claim C10. For a task whose target file does not exist (the existence test answers so,
  and the message that the icon is fetched is printed): when the locator returns no
  address, or the confirming fetch answers with a status that is not a success, or the
  payload is declared PNG and its conversion yields no bytes, the task fails and the files
  of the output directory are what they were.
\<close>

theorem failure_before_write:
  assumes "fs (filename info) = None"
    and "exists_error env (filename info) = None"
    and "print_error env [site_name info, filename info] = None"
  shows "(\<forall>lg1. resolve_favicon_url env (url info) lg = (Inr None, lg1) \<longrightarrow>
            download_icon env info (fs, lg) = Inr (False, fs, lg1)) \<and>
         (\<forall>u lg1 resp.
            resolve_favicon_url env (url info) lg = (Inr (Some u), lg1) \<and>
            http_get env (length lg1) u = Inr resp \<and> \<not> is_success resp \<longrightarrow>
            (\<exists>lg2. download_icon env info (fs, lg) = Inr (False, fs, lg2))) \<and>
         (\<forall>u lg1 resp.
            resolve_favicon_url env (url info) lg = (Inr (Some u), lg1) \<and>
            http_get env (length lg1) u = Inr resp \<and> is_success resp \<and>
            str_in ''image/png'' (get_content_type resp) \<and>
            convert_png_to_ico env (content resp) = [] \<longrightarrow>
            (\<exists>lg2. download_icon env info (fs, lg) = Inr (False, fs, lg2)))"
  using assms
  by (auto simp: download_icon_def download_try_def path_exists_def session_get_def
      PNG_CONTENT_TYPES_def)

lemma example_resolve_flaky:
  "resolve_favicon_url example_env ''https://flaky.example/'' [] =
     (Inr (Some ''https://flaky.example/favicon.ico''), [''https://flaky.example/favicon.ico''])"
  by (simp add: example_defs script_defs Let_def)

lemma example_resolve_corrupt:
  "resolve_favicon_url example_env ''https://corrupt.example/'' [] =
     (Inr (Some ''https://corrupt.example/favicon.ico''),
      [''https://corrupt.example/favicon.ico''])"
  by (simp add: example_defs script_defs Let_def)

lemma example_print: "print_error example_env vs = None"
  by (simp add: example_env_def)

lemma example_exists:
  "length (filename info) \<le> 255 \<Longrightarrow> exists_error example_env (filename info) = None"
  by (simp add: example_env_def)

theorem failure_before_write_witness:
  "download_icon example_env (example_task ''https://down.example/'' ''down.example'')
     (Map.empty, []) =
     Inr (False, Map.empty, [''https://down.example/favicon.ico'', ''https://down.example/'']) \<and>
   (\<exists>lg2. download_icon example_env (example_task ''https://flaky.example/'' ''flaky.example'')
      (Map.empty, []) = Inr (False, Map.empty, lg2)) \<and>
   (\<exists>lg2. download_icon example_env
      (example_task ''https://corrupt.example/'' ''corrupt.example'')
      (Map.empty, []) = Inr (False, Map.empty, lg2))"
proof -
  let ?down = "example_task ''https://down.example/'' ''down.example''"
  let ?flaky = "example_task ''https://flaky.example/'' ''flaky.example''"
  let ?corrupt = "example_task ''https://corrupt.example/'' ''corrupt.example''"
  have none: "(Map.empty :: files) (filename info) = None" for info by simp
  have e1: "exists_error example_env (filename ?down) = None"
    by (rule example_exists) (simp add: example_task_def)
  have e2: "exists_error example_env (filename ?flaky) = None"
    by (rule example_exists) (simp add: example_task_def)
  have e3: "exists_error example_env (filename ?corrupt) = None"
    by (rule example_exists) (simp add: example_task_def)
  have "download_icon example_env ?down (Map.empty, []) =
      Inr (False, Map.empty, [''https://down.example/favicon.ico'', ''https://down.example/''])"
    using failure_before_write [where fs = Map.empty and info = ?down and env = example_env
        and lg = "[]", OF none e1 example_print, THEN conjunct1]
      example_resolve_down
    by (simp add: example_task_def)
  moreover have "\<exists>lg2. download_icon example_env ?flaky (Map.empty, []) =
      Inr (False, Map.empty, lg2)"
    using failure_before_write [where fs = Map.empty and info = ?flaky and env = example_env
        and lg = "[]", OF none e2 example_print, THEN conjunct2, THEN conjunct1, rule_format,
        of "''https://flaky.example/favicon.ico''" "[''https://flaky.example/favicon.ico'']"
          "error_response 503"]
      example_resolve_flaky
    by (simp add: example_task_def example_env_def example_get_def error_response_def
        is_success_def)
  moreover have "\<exists>lg2. download_icon example_env ?corrupt (Map.empty, []) =
      Inr (False, Map.empty, lg2)"
    using failure_before_write [where fs = Map.empty and info = ?corrupt and env = example_env
        and lg = "[]", OF none e3 example_print, THEN conjunct2, THEN conjunct2, rule_format,
        of "''https://corrupt.example/favicon.ico''" "[''https://corrupt.example/favicon.ico'']"
          "ok_response ''image/png'' (replicate 100 255) []"]
      example_resolve_corrupt
    by (simp add: example_task_def example_env_def example_get_def ok_response_def
        is_success_def get_content_type_def convert_png_to_ico_def startswith_def)
  ultimately show ?thesis by blast
qed

lemma example_run_batch:
  "run_batch example_env example_tasks (Map.empty, []) =
     Inr ((2, 1, [''https://down.example/'']),
          [''example.com.ico'' \<mapsto> replicate 100 1,
           ''png.example.ico'' \<mapsto> [0, 0, 1, 0] @ replicate 120 7],
          [''https://example.com/favicon.ico'', ''https://example.com/favicon.ico'',
           ''https://down.example/favicon.ico'', ''https://down.example/'',
           ''https://png.example/favicon.ico'', ''https://png.example/'',
           ''https://png.example/a.png'', ''https://png.example/a.png''])"
  by (simp add: run_batch_def example_tasks_def example_defs script_defs Let_def)

subsection \<open>The locator\<close>

lemma try_favicon_ico_log:
  "snd (try_favicon_ico env base_url lg) = lg @ [base_url @ ''/favicon.ico'']"
  by (simp add: try_favicon_ico_def session_get_def Let_def split: sum.splits)

lemma try_rels_log: "\<exists>later. snd (try_rels env soup base_url rels lg) = lg @ later"
proof (induction rels arbitrary: lg)
  case Nil
  then show ?case by simp
next
  case (Cons r rels)
  have step: "\<exists>later. snd (try_rels env soup base_url rels (lg @ [u])) = lg @ later" for u
  proof -
    from Cons.IH [of "lg @ [u]"] obtain later
      where "snd (try_rels env soup base_url rels (lg @ [u])) = (lg @ [u]) @ later" by blast
    then have "snd (try_rels env soup base_url rels (lg @ [u])) = lg @ (u # later)" by simp
    then show ?thesis by blast
  qed
  show ?case
    using Cons.IH [of lg] step
    by (auto simp: session_get_def split: option.splits sum.splits)
qed

lemma try_html_favicon_log:
  "\<exists>later. snd (try_html_favicon env s_url base_url lg) = lg @ s_url # later"
proof (cases "http_get env (length lg) s_url")
  case (Inl e)
  then show ?thesis by (simp add: try_html_favicon_def session_get_def)
next
  case (Inr html_resp)
  show ?thesis
  proof (cases "BeautifulSoup env (resp_text html_resp)")
    case (Inl e)
    with Inr show ?thesis by (simp add: try_html_favicon_def session_get_def)
  next
    case soup: (Inr soup)
    from try_rels_log [of env soup base_url FAVICON_RELS "lg @ [s_url]"] obtain later
      where "snd (try_rels env soup base_url FAVICON_RELS (lg @ [s_url])) = (lg @ [s_url]) @ later"
      by blast
    with Inr soup show ?thesis
      by (auto simp: try_html_favicon_def session_get_def split: prod.splits)
  qed
qed

text \<open>
  Claim C3. The locator takes the scheme and the authority of the site address as the base
  address and requests the base address followed by \<open>/favicon.ico\<close> first. When that
  response passes the validity check, its address is returned and nothing else is
  requested: the site page is not fetched. When the request fails with a request error or
  its response does not pass the check, the locator goes on with the HTML step, whose first
  request is the site address. A second request is made only when the first response was
  not valid.
\<close>

theorem favicon_ico_first:
  assumes "urlparse env s_url = Inr (scheme, netloc)"
    and "base_url = scheme @ ''://'' @ netloc"
    and "ico_url = base_url @ ''/favicon.ico''"
  shows "(\<exists>later. snd (resolve_favicon_url env s_url lg) = lg @ ico_url # later) \<and>
         (\<forall>resp. http_get env (length lg) ico_url = Inr resp \<and> is_valid_icon_response resp \<longrightarrow>
            resolve_favicon_url env s_url lg = (Inr (Some ico_url), lg @ [ico_url])) \<and>
         ((http_get env (length lg) ico_url = Inl RequestError \<or>
           (\<exists>resp. http_get env (length lg) ico_url = Inr resp \<and> \<not> is_valid_icon_response resp)) \<longrightarrow>
            resolve_favicon_url env s_url lg = try_html_favicon env s_url base_url (lg @ [ico_url]) \<and>
            (\<exists>later. snd (resolve_favicon_url env s_url lg) = lg @ ico_url # s_url # later)) \<and>
         (snd (resolve_favicon_url env s_url lg) \<noteq> lg @ [ico_url] \<longrightarrow>
            \<not> (\<exists>resp. http_get env (length lg) ico_url = Inr resp \<and> is_valid_icon_response resp))"
proof -
  have ico: "ico_url \<noteq> []" using assms(3) by simp
  have valid: "resolve_favicon_url env s_url lg = (Inr (Some ico_url), lg @ [ico_url])"
    if "http_get env (length lg) ico_url = Inr resp" "is_valid_icon_response resp" for resp
    using that assms ico
    by (simp add: resolve_favicon_url_def try_favicon_ico_def session_get_def Let_def)
  have fallback: "resolve_favicon_url env s_url lg =
      try_html_favicon env s_url base_url (lg @ [ico_url])"
    if "http_get env (length lg) ico_url = Inl RequestError \<or>
        (\<exists>resp. http_get env (length lg) ico_url = Inr resp \<and> \<not> is_valid_icon_response resp)"
    using that assms
    by (auto simp: resolve_favicon_url_def try_favicon_ico_def session_get_def Let_def
        catch_request_error_def)
  have html_log: "\<exists>later. snd (resolve_favicon_url env s_url lg) = lg @ ico_url # s_url # later"
    if "http_get env (length lg) ico_url = Inl RequestError \<or>
        (\<exists>resp. http_get env (length lg) ico_url = Inr resp \<and> \<not> is_valid_icon_response resp)"
  proof -
    from try_html_favicon_log [of env s_url base_url "lg @ [ico_url]"] obtain later
      where "snd (try_html_favicon env s_url base_url (lg @ [ico_url])) =
        (lg @ [ico_url]) @ s_url # later" by blast
    with fallback [OF that] show ?thesis by simp
  qed
  have first: "\<exists>later. snd (resolve_favicon_url env s_url lg) = lg @ ico_url # later"
  proof (cases "http_get env (length lg) ico_url")
    case (Inl e)
    show ?thesis
    proof (cases "e = RequestError")
      case True
      with Inl html_log show ?thesis by blast
    next
      case False
      with Inl assms show ?thesis
        by (cases e) (simp_all add: resolve_favicon_url_def try_favicon_ico_def session_get_def
            Let_def catch_request_error_def)
    qed
  next
    case (Inr resp)
    show ?thesis
    proof (cases "is_valid_icon_response resp")
      case True
      from valid [OF Inr True] show ?thesis by simp
    next
      case False
      with Inr html_log show ?thesis by blast
    qed
  qed
  have only: "\<not> (\<exists>resp. http_get env (length lg) ico_url = Inr resp \<and> is_valid_icon_response resp)"
    if "snd (resolve_favicon_url env s_url lg) \<noteq> lg @ [ico_url]"
    using that valid by fastforce
  show ?thesis using first valid fallback html_log only by blast
qed

theorem favicon_ico_first_witness:
  "resolve_favicon_url example_env ''https://example.com/page'' [] =
     (Inr (Some ''https://example.com/favicon.ico''), [''https://example.com/favicon.ico'']) \<and>
   resolve_favicon_url example_env ''https://png.example/'' [] =
     try_html_favicon example_env ''https://png.example/'' ''https://png.example''
       [''https://png.example/favicon.ico''] \<and>
   (\<exists>later. snd (resolve_favicon_url example_env ''https://png.example/'' []) =
      ''https://png.example/favicon.ico'' # ''https://png.example/'' # later) \<and>
   \<not> (\<exists>resp. http_get example_env 0 ''https://png.example/favicon.ico'' = Inr resp \<and>
        is_valid_icon_response resp)"
proof -
  have p1: "urlparse example_env ''https://example.com/page'' = Inr (''https'', ''example.com'')"
    by (simp add: example_defs startswith_def Let_def)
  have g1: "http_get example_env (length ([]::log)) ''https://example.com/favicon.ico'' =
      Inr (ok_response ''image/x-icon'' (replicate 100 1) []) \<and>
      is_valid_icon_response (ok_response ''image/x-icon'' (replicate 100 1) [])"
    by (simp add: example_defs script_defs)
  have p2: "urlparse example_env ''https://png.example/'' = Inr (''https'', ''png.example'')"
    by (simp add: example_defs startswith_def Let_def)
  have g2: "http_get example_env (length ([]::log)) ''https://png.example/favicon.ico'' =
        Inl RequestError \<or>
      (\<exists>resp. http_get example_env (length ([]::log)) ''https://png.example/favicon.ico'' =
        Inr resp \<and> \<not> is_valid_icon_response resp)"
    by (simp add: example_defs script_defs)
  have l2: "snd (resolve_favicon_url example_env ''https://png.example/'' []) \<noteq>
      [''https://png.example/favicon.ico'']"
    using example_resolve_png by simp
  note t1 = favicon_ico_first [OF p1 refl refl, of "[]", unfolded append_Nil append_Cons]
  note t2 = favicon_ico_first [OF p2 refl refl, of "[]", unfolded append_Nil append_Cons]
  from t1 [THEN conjunct2, THEN conjunct1] g1
  have a: "resolve_favicon_url example_env ''https://example.com/page'' [] =
      (Inr (Some ''https://example.com/favicon.ico''), [''https://example.com/favicon.ico''])"
    by blast
  from t2 [THEN conjunct2, THEN conjunct2, THEN conjunct1] g2
  have b: "resolve_favicon_url example_env ''https://png.example/'' [] =
       try_html_favicon example_env ''https://png.example/'' ''https://png.example''
         [''https://png.example/favicon.ico''] \<and>
     (\<exists>later. snd (resolve_favicon_url example_env ''https://png.example/'' []) =
        ''https://png.example/favicon.ico'' # ''https://png.example/'' # later)"
    by blast
  from t2 [THEN conjunct2, THEN conjunct2, THEN conjunct2] l2
  have c: "\<not> (\<exists>resp. http_get example_env 0 ''https://png.example/favicon.ico'' = Inr resp \<and>
        is_valid_icon_response resp)"
    by simp
  from a b c show ?thesis by blast
qed

subsection \<open>The HTML step\<close>

lemma try_rels_skip:
  "rel_candidate soup r = None \<Longrightarrow>
   try_rels env soup base_url (r # rels) lg = try_rels env soup base_url rels lg"
  by (simp add: rel_candidate_def split: option.splits if_splits)

lemma try_rels_candidate:
  "rel_candidate soup r = Some h \<Longrightarrow> urljoin env base_url h = Inr u \<Longrightarrow>
   http_get env (length lg) u = Inr resp \<Longrightarrow>
   try_rels env soup base_url (r # rels) lg =
     (if is_valid_icon_response resp then (Inr (Some u), lg @ [u])
      else try_rels env soup base_url rels (lg @ [u]))"
  by (auto simp: rel_candidate_def session_get_def split: option.splits if_splits)

lemma try_rels_first_valid:
  assumes "List.map_filter (rel_candidate soup) rels = bad @ h # later"
    and "\<forall>j < length bad. \<exists>v resp. urljoin env base_url (bad ! j) = Inr v \<and>
           http_get env (length lg + j) v = Inr resp \<and> \<not> is_valid_icon_response resp"
    and "urljoin env base_url h = Inr u"
    and "http_get env (length lg + length bad) u = Inr resp"
    and "is_valid_icon_response resp"
  shows "try_rels env soup base_url rels lg =
     (Inr (Some u), lg @ map (\<lambda>c. projr (urljoin env base_url c)) (bad @ [h]))"
  using assms
proof (induction rels arbitrary: bad lg)
  case Nil
  then show ?case by (simp add: List.map_filter_simps)
next
  case (Cons r rels)
  show ?case
  proof (cases "rel_candidate soup r")
    case None
    with Cons.prems(1) have "List.map_filter (rel_candidate soup) rels = bad @ h # later"
      by (simp add: List.map_filter_simps)
    from Cons.IH [OF this Cons.prems(2-5)] show ?thesis
      by (simp add: try_rels_skip [OF None] del: try_rels.simps)
  next
    case (Some c)
    with Cons.prems(1)
    have eq: "c # List.map_filter (rel_candidate soup) rels = bad @ h # later"
      by (simp add: List.map_filter_simps)
    show ?thesis
    proof (cases bad)
      case Nil
      with eq have "c = h" by simp
      with Some Nil Cons.prems(3-5) show ?thesis
        by (simp add: try_rels_candidate del: try_rels.simps)
    next
      case bad: (Cons b bad')
      with eq have c: "c = b" and rest: "List.map_filter (rel_candidate soup) rels = bad' @ h # later"
        by simp_all
      from Cons.prems(2) bad obtain v r0 where v: "urljoin env base_url b = Inr v"
        and g: "http_get env (length lg) v = Inr r0" and inv: "\<not> is_valid_icon_response r0"
        by fastforce
      have bad': "\<forall>j < length bad'. \<exists>w resp. urljoin env base_url (bad' ! j) = Inr w \<and>
           http_get env (length (lg @ [v]) + j) w = Inr resp \<and> \<not> is_valid_icon_response resp"
      proof (intro allI impI)
        fix j assume "j < length bad'"
        then have "Suc j < length bad" using bad by simp
        with Cons.prems(2) obtain w resp where "urljoin env base_url (bad ! Suc j) = Inr w"
          "http_get env (length lg + Suc j) w = Inr resp" "\<not> is_valid_icon_response resp"
          by blast
        then show "\<exists>w resp. urljoin env base_url (bad' ! j) = Inr w \<and>
           http_get env (length (lg @ [v]) + j) w = Inr resp \<and> \<not> is_valid_icon_response resp"
          using bad by auto
      qed
      have good: "http_get env (length (lg @ [v]) + length bad') u = Inr resp"
        using Cons.prems(4) bad by simp
      from Cons.IH [OF rest bad' Cons.prems(3) good Cons.prems(5)]
      have "try_rels env soup base_url rels (lg @ [v]) =
          (Inr (Some u), (lg @ [v]) @ map (\<lambda>c. projr (urljoin env base_url c)) (bad' @ [h]))" .
      with Some c v g inv bad show ?thesis
        by (simp add: try_rels_candidate del: try_rels.simps)
    qed
  qed
qed

lemma candidates_apple_only:
  assumes "soup_find_link soup ''icon'' = None"
    and "soup_find_link soup ''shortcut icon'' = None"
    and "soup_find_link soup ''apple-touch-icon'' = Some tag"
    and "href tag = Some ''/a.png''"
  shows "candidates soup = [''/a.png'']"
  using assms
  by (simp add: candidates_def FAVICON_RELS_def List.map_filter_simps rel_candidate_def
      get_or_empty_def)

text \<open>
  Claim C2, as the code has it. The HTML step fetches the site page and goes through the rel
  values \<open>icon\<close>, \<open>shortcut icon\<close>, \<open>apple-touch-icon\<close> in this order. For each rel
  value it takes the first \<open>link\<close> element matching it; when that element has a non-empty
  \<open>href\<close>, the \<open>href\<close> is resolved against the base address and fetched, and the resolved
  address is returned if the response passes the validity check. A rel value without such
  an element, and a candidate whose response fails the check, pass the turn to the next rel
  value: the first candidate that validates is returned, after the candidates before it
  were fetched and rejected. In particular, on a page where no \<open>link\<close> matches \<open>icon\<close> or
  \<open>shortcut icon\<close> and the first \<open>apple-touch-icon\<close> link has the \<open>href\<close> \<open>/a.png\<close>,
  the resolved address of \<open>/a.png\<close> is returned when it validates.
\<close>

theorem html_fallback_priority:
  assumes "http_get env (length lg) s_url = Inr page"
    and "BeautifulSoup env (resp_text page) = Inr soup"
  shows "(\<forall>bad h later u resp.
            candidates soup = bad @ h # later \<and>
            (\<forall>j < length bad. \<exists>v r. urljoin env base_url (bad ! j) = Inr v \<and>
               http_get env (length lg + 1 + j) v = Inr r \<and> \<not> is_valid_icon_response r) \<and>
            urljoin env base_url h = Inr u \<and>
            http_get env (length lg + 1 + length bad) u = Inr resp \<and>
            is_valid_icon_response resp \<longrightarrow>
            try_html_favicon env s_url base_url lg =
              (Inr (Some u),
               lg @ s_url # map (\<lambda>c. projr (urljoin env base_url c)) (bad @ [h]))) \<and>
         (\<forall>tag u resp.
            soup_find_link soup ''icon'' = None \<and>
            soup_find_link soup ''shortcut icon'' = None \<and>
            soup_find_link soup ''apple-touch-icon'' = Some tag \<and>
            href tag = Some ''/a.png'' \<and>
            urljoin env base_url ''/a.png'' = Inr u \<and>
            http_get env (length lg + 1) u = Inr resp \<and>
            is_valid_icon_response resp \<longrightarrow>
            try_html_favicon env s_url base_url lg = (Inr (Some u), lg @ [s_url, u]))"
proof -
  have general: "try_html_favicon env s_url base_url lg =
      (Inr (Some u), lg @ s_url # map (\<lambda>c. projr (urljoin env base_url c)) (bad @ [h]))"
    if c: "candidates soup = bad @ h # later"
      and b: "\<forall>j < length bad. \<exists>v r. urljoin env base_url (bad ! j) = Inr v \<and>
               http_get env (length lg + 1 + j) v = Inr r \<and> \<not> is_valid_icon_response r"
      and u: "urljoin env base_url h = Inr u"
      and g: "http_get env (length lg + 1 + length bad) u = Inr resp"
      and v: "is_valid_icon_response resp"
    for bad h later u resp
  proof -
    have c': "List.map_filter (rel_candidate soup) FAVICON_RELS = bad @ h # later"
      using c by (simp add: candidates_def)
    have b': "\<forall>j < length bad. \<exists>v r. urljoin env base_url (bad ! j) = Inr v \<and>
        http_get env (length (lg @ [s_url]) + j) v = Inr r \<and> \<not> is_valid_icon_response r"
      using b by simp
    have g': "http_get env (length (lg @ [s_url]) + length bad) u = Inr resp"
      using g by simp
    from try_rels_first_valid [OF c' b' u g' v]
    have "try_rels env soup base_url FAVICON_RELS (lg @ [s_url]) =
        (Inr (Some u), (lg @ [s_url]) @ map (\<lambda>c. projr (urljoin env base_url c)) (bad @ [h]))" .
    with assms show ?thesis
      by (simp add: try_html_favicon_def session_get_def catch_request_error_def)
  qed
  have apple: "try_html_favicon env s_url base_url lg = (Inr (Some u), lg @ [s_url, u])"
    if f: "soup_find_link soup ''icon'' = None" "soup_find_link soup ''shortcut icon'' = None"
      "soup_find_link soup ''apple-touch-icon'' = Some tag" "href tag = Some ''/a.png''"
      and u: "urljoin env base_url ''/a.png'' = Inr u"
      and g: "http_get env (length lg + 1) u = Inr resp"
      and v: "is_valid_icon_response resp"
    for tag u resp
  proof -
    have c: "candidates soup = [] @ ''/a.png'' # []"
      using candidates_apple_only [OF f] by simp
    have b: "\<forall>j < length ([]::string list). \<exists>v r. urljoin env base_url ([] ! j) = Inr v \<and>
        http_get env (length lg + 1 + j) v = Inr r \<and> \<not> is_valid_icon_response r"
      by simp
    have g': "http_get env (length lg + 1 + length ([]::string list)) u = Inr resp"
      using g by simp
    from general [OF c b u g' v] u show ?thesis by simp
  qed
  show ?thesis using general apple by blast
qed

lemma example_two_candidates:
  "candidates [link_element [''icon''] ''/bad.ico'', link_element [''apple-touch-icon''] ''/a.png''] =
     [''/bad.ico'', ''/a.png'']"
  by (simp add: candidates_def FAVICON_RELS_def List.map_filter_simps rel_candidate_def
      soup_find_link_def rel_matches_def link_element_def get_or_empty_def)

theorem html_fallback_priority_witness:
  "try_html_favicon example_env ''https://two.example/'' ''https://two.example''
     [''https://two.example/favicon.ico''] =
     (Inr (Some ''https://two.example/a.png''),
      [''https://two.example/favicon.ico'', ''https://two.example/'',
       ''https://two.example/bad.ico'', ''https://two.example/a.png'']) \<and>
   try_html_favicon example_env ''https://png.example/'' ''https://png.example''
     [''https://png.example/favicon.ico''] =
     (Inr (Some ''https://png.example/a.png''),
      [''https://png.example/favicon.ico'', ''https://png.example/'',
       ''https://png.example/a.png''])"
proof -
  let ?two = "[link_element [''icon''] ''/bad.ico'', link_element [''apple-touch-icon''] ''/a.png'']"
  let ?apple = "[\<lparr>tag_name = ''title'', rel = None, href = None\<rparr>,
                 link_element [''stylesheet''] ''/main.css'',
                 link_element [''apple-touch-icon''] ''/a.png'']"
  let ?png = "ok_response ''image/png'' (replicate 120 7) []"
  have valid: "is_valid_icon_response ?png"
    by (simp add: ok_response_def script_defs)
  have page2: "http_get example_env (length [''https://two.example/favicon.ico''])
      ''https://two.example/'' = Inr (ok_response ''text/html'' (replicate 300 60) ''two links page'')"
    by (simp add: example_env_def example_get_def)
  have soup2: "BeautifulSoup example_env
      (resp_text (ok_response ''text/html'' (replicate 300 60) ''two links page'')) = Inr ?two"
    by (simp add: example_env_def example_soup_def ok_response_def)
  have c2: "candidates ?two = [''/bad.ico''] @ ''/a.png'' # []"
    using example_two_candidates by simp
  have bad2: "\<forall>j < length [''/bad.ico''].
      \<exists>v r. urljoin example_env ''https://two.example'' ([''/bad.ico''] ! j) = Inr v \<and>
        http_get example_env (length [''https://two.example/favicon.ico''] + 1 + j) v = Inr r \<and>
        \<not> is_valid_icon_response r"
    by (simp add: example_defs script_defs)
  have u2: "urljoin example_env ''https://two.example'' ''/a.png'' = Inr ''https://two.example/a.png''"
    by (simp add: example_env_def startswith_def)
  have g2: "http_get example_env
      (length [''https://two.example/favicon.ico''] + 1 + length [''/bad.ico''])
      ''https://two.example/a.png'' = Inr ?png"
    by (simp add: example_env_def example_get_def)
  have ub: "urljoin example_env ''https://two.example'' ''/bad.ico'' =
      Inr ''https://two.example/bad.ico''"
    by (simp add: example_env_def startswith_def)
  from html_fallback_priority [OF page2 soup2, of "''https://two.example''", THEN conjunct1,
      rule_format, of "[''/bad.ico'']" "''/a.png''" "[]" "''https://two.example/a.png''" ?png]
    c2 bad2 u2 g2 valid
  have two: "try_html_favicon example_env ''https://two.example/'' ''https://two.example''
      [''https://two.example/favicon.ico''] =
     (Inr (Some ''https://two.example/a.png''),
      [''https://two.example/favicon.ico'', ''https://two.example/'',
       ''https://two.example/bad.ico'', ''https://two.example/a.png''])"
    by (simp add: u2 ub)
  have page1: "http_get example_env (length [''https://png.example/favicon.ico''])
      ''https://png.example/'' =
      Inr (ok_response ''text/html; charset=utf-8'' (replicate 300 60) ''apple page'')"
    by (simp add: example_env_def example_get_def)
  have soup1: "BeautifulSoup example_env
      (resp_text (ok_response ''text/html; charset=utf-8'' (replicate 300 60) ''apple page'')) =
      Inr ?apple"
    by (simp add: example_env_def example_soup_def ok_response_def)
  have find1: "soup_find_link ?apple ''icon'' = None \<and>
      soup_find_link ?apple ''shortcut icon'' = None \<and>
      soup_find_link ?apple ''apple-touch-icon'' = Some (link_element [''apple-touch-icon''] ''/a.png'') \<and>
      href (link_element [''apple-touch-icon''] ''/a.png'') = Some ''/a.png''"
    by (simp add: soup_find_link_def rel_matches_def link_element_def)
  have u1: "urljoin example_env ''https://png.example'' ''/a.png'' = Inr ''https://png.example/a.png''"
    by (simp add: example_env_def startswith_def)
  have g1: "http_get example_env (length [''https://png.example/favicon.ico''] + 1)
      ''https://png.example/a.png'' = Inr ?png"
    by (simp add: example_env_def example_get_def)
  from html_fallback_priority [OF page1 soup1, of "''https://png.example''", THEN conjunct2,
      rule_format, of "link_element [''apple-touch-icon''] ''/a.png''"
        "''https://png.example/a.png''" ?png]
    find1 u1 g1 valid
  have one: "try_html_favicon example_env ''https://png.example/'' ''https://png.example''
     [''https://png.example/favicon.ico''] =
     (Inr (Some ''https://png.example/a.png''),
      [''https://png.example/favicon.ico'', ''https://png.example/'',
       ''https://png.example/a.png''])"
    by simp
  from two one show ?thesis by blast
qed

text \<open>
  The first tag found overall does not always win: on this page it is the \<open>icon\<close> link to
  \<open>/bad.ico\<close>, whose response is too small to pass the check, and the locator returns the
  address of the \<open>apple-touch-icon\<close> link instead.
\<close>

theorem first_link_overall_counterexample:
  "first_link_overall
     [link_element [''icon''] ''/bad.ico'', link_element [''apple-touch-icon''] ''/a.png''] =
     Some (link_element [''icon''] ''/bad.ico'') \<and>
   BeautifulSoup example_env ''two links page'' =
     Inr [link_element [''icon''] ''/bad.ico'', link_element [''apple-touch-icon''] ''/a.png''] \<and>
   urljoin example_env ''https://two.example'' ''/bad.ico'' = Inr ''https://two.example/bad.ico'' \<and>
   try_html_favicon example_env ''https://two.example/'' ''https://two.example''
     [''https://two.example/favicon.ico''] =
     (Inr (Some ''https://two.example/a.png''),
      [''https://two.example/favicon.ico'', ''https://two.example/'',
       ''https://two.example/bad.ico'', ''https://two.example/a.png''])"
  by (simp add: first_link_overall_def List.map_filter_simps example_defs script_defs)

subsection \<open>What is written\<close>

lemma convert_png_to_ico_success:
  assumes "Image_open env d = Inr img"
    and "image_mode env img = ''RGBA'' \<and> rgba = img \<or>
         image_mode env img \<noteq> ''RGBA'' \<and> image_convert env img ''RGBA'' = Inr rgba"
    and "image_save env rgba ''ICO'' [(32, 32)] = Inr ico"
  shows "convert_png_to_ico env d = ico"
  using assms by (auto simp: convert_png_to_ico_def)

lemma convert_png_to_ico_failure:
  assumes "(\<exists>e. Image_open env d = Inl e) \<or>
       (\<exists>img e. Image_open env d = Inr img \<and> image_mode env img \<noteq> ''RGBA'' \<and>
          image_convert env img ''RGBA'' = Inl e) \<or>
       (\<exists>img rgba e. Image_open env d = Inr img \<and>
          (image_mode env img = ''RGBA'' \<and> rgba = img \<or>
           image_mode env img \<noteq> ''RGBA'' \<and> image_convert env img ''RGBA'' = Inr rgba) \<and>
          image_save env rgba ''ICO'' [(32, 32)] = Inl e)"
  shows "convert_png_to_ico env d = []"
  using assms by (auto simp: convert_png_to_ico_def)

text \<open>
  Claim C7. Take a task whose file does not exist yet (the existence test answers so, and
  the message that the icon is fetched is printed) and whose confirming fetch answers with
  a success status. The code tells the two kinds of payload apart by whether
  \<open>image/png\<close> occurs in the Content-Type header. A payload declared with an icon MIME
  type (and not PNG) is written to the target file as fetched. A payload declared PNG is
  decoded, converted to the mode \<open>RGBA\<close> unless it has it already, saved in the format
  \<open>ICO\<close> with the single size 32 by 32, and the bytes of that are written. When decoding,
  converting or saving raises, the task fails, no file is written, and the loop of the batch
  goes on with the next task.
\<close>

theorem persisted_bytes:
  assumes "fs (filename info) = None"
    and "exists_error env (filename info) = None"
    and "print_error env [site_name info, filename info] = None"
    and "resolve_favicon_url env (url info) lg = (Inr (Some u), lg1)"
    and "u \<noteq> []"
    and "http_get env (length lg1) u = Inr resp"
    and "is_success resp"
  shows "((str_in ''image/x-icon'' (get_content_type resp) \<or>
           str_in ''image/vnd.microsoft.icon'' (get_content_type resp)) \<and>
          \<not> str_in ''image/png'' (get_content_type resp) \<and>
          disk_write env (filename info) (content resp) = Written \<longrightarrow>
          download_icon env info (fs, lg) =
            Inr (True, fs(filename info \<mapsto> content resp), lg1 @ [u])) \<and>
         (\<forall>img rgba ico.
            str_in ''image/png'' (get_content_type resp) \<and>
            Image_open env (content resp) = Inr img \<and>
            (image_mode env img = ''RGBA'' \<and> rgba = img \<or>
             image_mode env img \<noteq> ''RGBA'' \<and> image_convert env img ''RGBA'' = Inr rgba) \<and>
            image_save env rgba ''ICO'' [(32, 32)] = Inr ico \<and> ico \<noteq> [] \<and>
            disk_write env (filename info) ico = Written \<longrightarrow>
            download_icon env info (fs, lg) =
              Inr (True, fs(filename info \<mapsto> ico), lg1 @ [u])) \<and>
         (str_in ''image/png'' (get_content_type resp) \<and>
          ((\<exists>e. Image_open env (content resp) = Inl e) \<or>
           (\<exists>img e. Image_open env (content resp) = Inr img \<and> image_mode env img \<noteq> ''RGBA'' \<and>
              image_convert env img ''RGBA'' = Inl e) \<or>
           (\<exists>img rgba e. Image_open env (content resp) = Inr img \<and>
              (image_mode env img = ''RGBA'' \<and> rgba = img \<or>
               image_mode env img \<noteq> ''RGBA'' \<and> image_convert env img ''RGBA'' = Inr rgba) \<and>
              image_save env rgba ''ICO'' [(32, 32)] = Inl e)) \<longrightarrow>
          download_icon env info (fs, lg) = Inr (False, fs, lg1 @ [u]) \<and>
          batch_loop env (info # rest) (success_count, failed_count, failed_urls) (fs, lg) =
            batch_loop env rest (success_count, failed_count + 1, failed_urls @ [url info])
              (fs, lg1 @ [u]))"
proof -
  have icon: "download_icon env info (fs, lg) =
      Inr (True, fs(filename info \<mapsto> content resp), lg1 @ [u])"
    if "\<not> str_in ''image/png'' (get_content_type resp)"
      "disk_write env (filename info) (content resp) = Written"
    using that assms
    by (simp add: download_icon_def download_try_def path_exists_def session_get_def PNG_CONTENT_TYPES_def write_file_def)
  have png: "download_icon env info (fs, lg) =
      Inr (True, fs(filename info \<mapsto> ico), lg1 @ [u])"
    if "str_in ''image/png'' (get_content_type resp)"
      and o: "Image_open env (content resp) = Inr img"
      and m: "image_mode env img = ''RGBA'' \<and> rgba = img \<or>
             image_mode env img \<noteq> ''RGBA'' \<and> image_convert env img ''RGBA'' = Inr rgba"
      and s: "image_save env rgba ''ICO'' [(32, 32)] = Inr ico"
      and "ico \<noteq> []" "disk_write env (filename info) ico = Written"
    for img rgba ico
    using that(1,5,6) assms convert_png_to_ico_success [OF o m s]
    by (simp add: download_icon_def download_try_def path_exists_def session_get_def PNG_CONTENT_TYPES_def write_file_def)
  have failed: "download_icon env info (fs, lg) = Inr (False, fs, lg1 @ [u])"
    if "str_in ''image/png'' (get_content_type resp)"
      and f: "(\<exists>e. Image_open env (content resp) = Inl e) \<or>
           (\<exists>img e. Image_open env (content resp) = Inr img \<and> image_mode env img \<noteq> ''RGBA'' \<and>
              image_convert env img ''RGBA'' = Inl e) \<or>
           (\<exists>img rgba e. Image_open env (content resp) = Inr img \<and>
              (image_mode env img = ''RGBA'' \<and> rgba = img \<or>
               image_mode env img \<noteq> ''RGBA'' \<and> image_convert env img ''RGBA'' = Inr rgba) \<and>
              image_save env rgba ''ICO'' [(32, 32)] = Inl e)"
    using that(1) assms convert_png_to_ico_failure [OF f]
    by (simp add: download_icon_def download_try_def path_exists_def session_get_def PNG_CONTENT_TYPES_def)
  have loop: "batch_loop env (info # rest) (success_count, failed_count, failed_urls) (fs, lg) =
      batch_loop env rest (success_count, failed_count + 1, failed_urls @ [url info])
        (fs, lg1 @ [u])"
    if "download_icon env info (fs, lg) = Inr (False, fs, lg1 @ [u])"
    using that by simp
  show ?thesis using icon png failed loop by blast
qed

theorem persisted_bytes_witness:
  "download_icon example_env (example_task ''https://example.com/page'' ''example.com'')
     (Map.empty, []) =
     Inr (True, [''example.com.ico'' \<mapsto> replicate 100 1],
      [''https://example.com/favicon.ico'', ''https://example.com/favicon.ico'']) \<and>
   download_icon example_env (example_task ''https://png.example/'' ''png.example'')
     (Map.empty, []) =
     Inr (True, [''png.example.ico'' \<mapsto> [0, 0, 1, 0] @ replicate 120 7],
      [''https://png.example/favicon.ico'', ''https://png.example/'',
       ''https://png.example/a.png'', ''https://png.example/a.png'']) \<and>
   download_icon example_env (example_task ''https://corrupt.example/'' ''corrupt.example'')
     (Map.empty, []) =
     Inr (False, Map.empty,
      [''https://corrupt.example/favicon.ico'', ''https://corrupt.example/favicon.ico'']) \<and>
   batch_loop example_env
     [example_task ''https://corrupt.example/'' ''corrupt.example''] (0, 0, []) (Map.empty, []) =
     Inr ((0, 1, [''https://corrupt.example/'']), Map.empty,
      [''https://corrupt.example/favicon.ico'', ''https://corrupt.example/favicon.ico''])"
proof -
  let ?ico = "example_task ''https://example.com/page'' ''example.com''"
  let ?png = "example_task ''https://png.example/'' ''png.example''"
  let ?bad = "example_task ''https://corrupt.example/'' ''corrupt.example''"
  let ?ico_resp = "ok_response ''image/x-icon'' (replicate 100 1) []"
  let ?png_resp = "ok_response ''image/png'' (replicate 120 7) []"
  let ?bad_resp = "ok_response ''image/png'' (replicate 100 255) []"
  have none: "(Map.empty :: files) (filename info) = None" for info by simp
  have e1: "exists_error example_env (filename ?ico) = None"
    by (rule example_exists) (simp add: example_task_def)
  have e2: "exists_error example_env (filename ?png) = None"
    by (rule example_exists) (simp add: example_task_def)
  have e3: "exists_error example_env (filename ?bad) = None"
    by (rule example_exists) (simp add: example_task_def)
  have r1: "resolve_favicon_url example_env (url ?ico) [] =
      (Inr (Some ''https://example.com/favicon.ico''), [''https://example.com/favicon.ico''])"
    using example_resolve_ico by (simp add: example_task_def)
  have g1: "http_get example_env (length [''https://example.com/favicon.ico''])
      ''https://example.com/favicon.ico'' = Inr ?ico_resp"
    by (simp add: example_env_def example_get_def)
  have s1: "is_success ?ico_resp" by (simp add: ok_response_def is_success_def)
  have c1: "(str_in ''image/x-icon'' (get_content_type ?ico_resp) \<or>
            str_in ''image/vnd.microsoft.icon'' (get_content_type ?ico_resp)) \<and>
      \<not> str_in ''image/png'' (get_content_type ?ico_resp) \<and>
      disk_write example_env (filename ?ico) (content ?ico_resp) = Written"
    by (simp add: ok_response_def get_content_type_def startswith_def example_env_def
        example_task_def)
  from persisted_bytes [where fs = Map.empty and info = ?ico and env = example_env
      and lg = "[]", OF none e1 example_print r1 _ g1 s1, THEN conjunct1] c1
  have a: "download_icon example_env ?ico (Map.empty, []) =
     Inr (True, [''example.com.ico'' \<mapsto> replicate 100 1],
      [''https://example.com/favicon.ico'', ''https://example.com/favicon.ico''])"
    by (simp add: example_task_def ok_response_def)
  have r2: "resolve_favicon_url example_env (url ?png) [] =
      (Inr (Some ''https://png.example/a.png''),
       [''https://png.example/favicon.ico'', ''https://png.example/'',
        ''https://png.example/a.png''])"
    using example_resolve_png by (simp add: example_task_def)
  have g2: "http_get example_env
      (length [''https://png.example/favicon.ico'', ''https://png.example/'',
               ''https://png.example/a.png''])
      ''https://png.example/a.png'' = Inr ?png_resp"
    by (simp add: example_env_def example_get_def)
  have s2: "is_success ?png_resp" by (simp add: ok_response_def is_success_def)
  have c2: "str_in ''image/png'' (get_content_type ?png_resp) \<and>
      Image_open example_env (content ?png_resp) = Inr (''RGB'', replicate 120 7) \<and>
      (image_mode example_env (''RGB'', replicate 120 7) = ''RGBA'' \<and>
         (''RGBA'', replicate 120 7) = (''RGB'', replicate 120 7) \<or>
       image_mode example_env (''RGB'', replicate 120 7) \<noteq> ''RGBA'' \<and>
         image_convert example_env (''RGB'', replicate 120 7) ''RGBA'' =
           Inr (''RGBA'', replicate 120 7)) \<and>
      image_save example_env (''RGBA'', replicate 120 7) ''ICO'' [(32, 32)] =
        Inr ([0, 0, 1, 0] @ replicate 120 7) \<and>
      [0, 0, 1, 0] @ replicate 120 (7::8 word) \<noteq> [] \<and>
      disk_write example_env (filename ?png) ([0, 0, 1, 0] @ replicate 120 7) = Written"
    by (simp add: ok_response_def get_content_type_def startswith_def example_env_def
        example_task_def)
  from persisted_bytes [where fs = Map.empty and info = ?png and env = example_env
      and lg = "[]", OF none e2 example_print r2 _ g2 s2, THEN conjunct2, THEN conjunct1, rule_format,
      of "(''RGB'', replicate 120 7)" "(''RGBA'', replicate 120 7)"
        "[0, 0, 1, 0] @ replicate 120 7"] c2
  have b: "download_icon example_env ?png (Map.empty, []) =
     Inr (True, [''png.example.ico'' \<mapsto> [0, 0, 1, 0] @ replicate 120 7],
      [''https://png.example/favicon.ico'', ''https://png.example/'',
       ''https://png.example/a.png'', ''https://png.example/a.png''])"
    by (simp add: example_task_def)
  have r3: "resolve_favicon_url example_env (url ?bad) [] =
      (Inr (Some ''https://corrupt.example/favicon.ico''),
       [''https://corrupt.example/favicon.ico''])"
    using example_resolve_corrupt by (simp add: example_task_def)
  have g3: "http_get example_env (length [''https://corrupt.example/favicon.ico''])
      ''https://corrupt.example/favicon.ico'' = Inr ?bad_resp"
    by (simp add: example_env_def example_get_def)
  have s3: "is_success ?bad_resp" by (simp add: ok_response_def is_success_def)
  have c3: "str_in ''image/png'' (get_content_type ?bad_resp) \<and>
      (\<exists>e. Image_open example_env (content ?bad_resp) = Inl e)"
    by (simp add: ok_response_def get_content_type_def startswith_def example_env_def)
  from persisted_bytes [where fs = Map.empty and info = ?bad and env = example_env
      and lg = "[]" and rest = "[]" and success_count = 0 and failed_count = 0
      and failed_urls = "[]", OF none e3 example_print r3 _ g3 s3, THEN conjunct2, THEN conjunct2] c3
  have c: "download_icon example_env ?bad (Map.empty, []) =
     Inr (False, Map.empty,
      [''https://corrupt.example/favicon.ico'', ''https://corrupt.example/favicon.ico'']) \<and>
     batch_loop example_env [?bad] (0, 0, []) (Map.empty, []) =
     Inr ((0, 1, [''https://corrupt.example/'']), Map.empty,
      [''https://corrupt.example/favicon.ico'', ''https://corrupt.example/favicon.ico''])"
    by (simp add: example_task_def)
  from a b c show ?thesis by blast
qed

subsection \<open>Splitting\<close>

lemma split_from_not_Nil: "split_from sep cur s \<noteq> []"
  by (induction sep cur s rule: split_from.induct) auto

lemma split_from_no_sep:
  "\<not> str_in sep s \<Longrightarrow> split_from sep cur s = [cur @ s]"
  by (induction sep cur s rule: split_from.induct) auto

lemma startswith_append_short:
  assumes "startswith (p @ q) sep" and "length sep \<le> length p + n"
  shows "startswith (p @ take n q) sep"
proof -
  from assms(1) have "take (length sep) (p @ q) = sep" by (simp add: startswith_def)
  moreover have "length sep - length p \<le> n" using assms(2) by arith
  then have "take (length sep) (p @ take n q) = take (length sep) (p @ q)"
    by (simp add: min_absorb1)
  ultimately show ?thesis by (simp add: startswith_def)
qed

lemma split_from_first:
  assumes "sep \<noteq> []" and "\<not> str_in sep (p @ butlast sep)"
  shows "split_from sep cur (p @ sep @ d) = (cur @ p) # split_from sep [] d"
  using assms(2)
proof (induction p arbitrary: cur)
  case Nil
  obtain c cs where sep: "sep = c # cs" using assms(1) by (cases sep) auto
  have "startswith (sep @ d) sep" by (simp add: startswith_def)
  then show ?case using assms(1) unfolding sep by simp
next
  case (Cons a p)
  have no_start: "\<not> startswith (a # p @ sep @ d) sep"
  proof
    assume "startswith (a # p @ sep @ d) sep"
    then have "startswith ((a # p) @ (sep @ d)) sep" by simp
    moreover have "length sep \<le> length (a # p) + (length sep - 1)" by simp
    ultimately have "startswith ((a # p) @ take (length sep - 1) (sep @ d)) sep"
      by (rule startswith_append_short)
    moreover have "take (length sep - 1) (sep @ d) = butlast sep"
      by (simp add: butlast_conv_take)
    ultimately have "startswith ((a # p) @ butlast sep) sep" by simp
    then have "str_in sep ((a # p) @ butlast sep)" by simp
    with Cons.prems show False by simp
  qed
  have "\<not> str_in sep (p @ butlast sep)" using Cons.prems by simp
  from Cons.IH [OF this, of "cur @ [a]"] no_start show ?case by simp
qed

lemma no_slash_no_sep:
  assumes "CHR ''/'' \<notin> set d"
  shows "\<not> str_in ''/favicon/'' d"
proof
  assume "str_in ''/favicon/'' d"
  then obtain p q where "d = p @ ''/favicon/'' @ q" by (auto simp: str_in_iff)
  then have "CHR ''/'' \<in> set d" by simp
  with assms show False by simp
qed

lemma last_split_proxy:
  assumes "\<not> str_in ''/favicon/'' (p @ ''/favicon'')" and "CHR ''/'' \<notin> set d"
  shows "last (str_split (p @ ''/favicon/'' @ d) ''/favicon/'') = d"
proof -
  have n: "\<not> str_in ''/favicon/'' (p @ butlast ''/favicon/'')"
    using assms(1) by simp
  have "split_from ''/favicon/'' [] (p @ ''/favicon/'' @ d) =
      ([] @ p) # split_from ''/favicon/'' [] d"
    by (rule split_from_first [OF _ n]) simp
  moreover have "split_from ''/favicon/'' [] d = [[] @ d]"
    by (rule split_from_no_sep) (rule no_slash_no_sep [OF assms(2)])
  ultimately show ?thesis by (simp add: str_split_def)
qed

subsection \<open>The task list\<close>

lemma sites_http_icons_member:
  "sites_http_icons env ss = Inr tasks \<Longrightarrow> info \<in> set tasks \<Longrightarrow>
   \<exists>s d. s \<in> set ss \<and> startswith (get_or_empty (url_key s)) ''http'' \<and>
     extract_domain env s = Inr d \<and> info = make_icon_info s d"
proof (induction ss arbitrary: tasks)
  case Nil
  then show ?case by simp
next
  case (Cons s ss)
  show ?case
  proof (cases "startswith (get_or_empty (url_key s)) ''http''")
    case False
    with Cons.prems have "sites_http_icons env ss = Inr tasks" by simp
    from Cons.IH [OF this Cons.prems(2)] show ?thesis by auto
  next
    case True
    with Cons.prems(1) obtain d rest where d: "extract_domain env s = Inr d"
      and rest: "sites_http_icons env ss = Inr rest" and tasks: "tasks = make_icon_info s d # rest"
      by (auto split: sum.splits)
    show ?thesis
    proof (cases "info = make_icon_info s d")
      case True
      with d \<open>startswith (get_or_empty (url_key s)) ''http''\<close> show ?thesis by auto
    next
      case False
      with tasks Cons.prems(2) have "info \<in> set rest" by simp
      from Cons.IH [OF rest this] show ?thesis by auto
    qed
  qed
qed

lemma sites_http_icons_urls:
  "sites_http_icons env ss = Inr tasks \<Longrightarrow>
   map url tasks =
     filter (\<lambda>u. startswith u ''http'') (map (\<lambda>s. get_or_empty (url_key s)) ss)"
proof (induction ss arbitrary: tasks)
  case Nil
  then show ?case by simp
next
  case (Cons s ss)
  show ?case
  proof (cases "startswith (get_or_empty (url_key s)) ''http''")
    case False
    with Cons.prems have "sites_http_icons env ss = Inr tasks" by simp
    from Cons.IH [OF this] False show ?thesis by simp
  next
    case True
    with Cons.prems(1) obtain d rest where rest: "sites_http_icons env ss = Inr rest"
      and tasks: "tasks = make_icon_info s d # rest"
      by (auto split: sum.splits)
    from Cons.IH [OF rest] True tasks show ?thesis by (simp add: make_icon_info_def)
  qed
qed

lemma extract_domain_proxy:
  assumes "get_or_empty (url_key s) = p @ ''/favicon/'' @ d"
    and "\<not> str_in ''/favicon/'' (p @ ''/favicon'')" and "CHR ''/'' \<notin> set d"
  shows "extract_domain env s = Inr d"
proof -
  have "str_in ''favicon/'' (get_or_empty (url_key s))"
  proof -
    have "get_or_empty (url_key s) = (p @ ''/'') @ ''favicon/'' @ d" using assms(1) by simp
    then show ?thesis unfolding str_in_iff by blast
  qed
  then show ?thesis
    using last_split_proxy [OF assms(2,3)] assms(1) by (simp add: extract_domain_def)
qed

lemma extract_domain_plain:
  assumes "\<not> str_in ''favicon/'' (get_or_empty (url_key s))"
  shows "extract_domain env s =
     (case urlparse env (get_or_empty (url_key s)) of
        Inl e \<Rightarrow> Inl e | Inr (scheme, netloc) \<Rightarrow> Inr netloc)"
  using assms by (simp add: extract_domain_def)

lemma extract_domain_example:
  "extract_domain env \<lparr>name_key = n, url_key = Some ''http://icon.example/favicon/foo.com''\<rparr> =
     Inr ''foo.com''"
  by (simp add: extract_domain_def get_or_empty_def startswith_def str_split_def)

text \<open>
  Claim C4 fails on the code. The script tests whether \<open>favicon/\<close> occurs in the address
  but cuts the address at \<open>/favicon/\<close>. An address in which \<open>favicon/\<close> occurs only as the
  end of a longer path segment takes the first branch, \<open>split\<close> finds nothing to cut, and
  the whole address becomes the domain, where the claim gives the authority
  \<open>example.com\<close>.
\<close>

theorem domain_is_whole_address:
  "\<not> str_in ''/favicon/'' ''http://example.com/myfavicon/x'' \<and>
   urlparse example_env ''http://example.com/myfavicon/x'' = Inr (''http'', ''example.com'') \<and>
   get_all_http_icons example_env
     \<lparr>categories = [\<lparr>sites = [\<lparr>name_key = Some ''Example'',
                                 url_key = Some ''http://example.com/myfavicon/x''\<rparr>]\<rparr>]\<rparr> =
     Inr [\<lparr>url = ''http://example.com/myfavicon/x'',
           domain = ''http://example.com/myfavicon/x'',
           filename = ''http://example.com/myfavicon/x.ico'',
           site_name = ''Example'', site_url = ''http://example.com/myfavicon/x''\<rparr>]"
  by (simp add: get_all_http_icons_def all_sites_def extract_domain_def make_icon_info_def
      get_or_empty_def startswith_def str_split_def example_defs Let_def)

text \<open>
  Claim C5, as the code has it. For every task of the task list the file name is the
  domain followed by \<open>.ico\<close>. The domain is not checked: for an address \<open>p/favicon/d\<close>
  in which \<open>/favicon/\<close> does not occur before that place and \<open>d\<close> is not empty and has no
  slash, the domain is \<open>d\<close>, so it is not empty and has no slash; for an address in which
  \<open>favicon/\<close> does not occur, the domain is the netloc \<open>urlparse\<close> returns.
\<close>

theorem task_filename:
  assumes "get_all_http_icons env data = Inr tasks" and "info \<in> set tasks"
  shows "filename info = domain info @ ''.ico'' \<and>
         (\<forall>p d. url info = p @ ''/favicon/'' @ d \<and> \<not> str_in ''/favicon/'' (p @ ''/favicon'') \<and>
            d \<noteq> [] \<and> CHR ''/'' \<notin> set d \<longrightarrow>
            domain info = d \<and> domain info \<noteq> [] \<and> CHR ''/'' \<notin> set (domain info)) \<and>
         (\<not> str_in ''favicon/'' (url info) \<longrightarrow>
            (\<exists>scheme. urlparse env (url info) = Inr (scheme, domain info)))"
proof -
  from assms obtain s d0 where s: "s \<in> set (all_sites data)"
    and d0: "extract_domain env s = Inr d0" and info: "info = make_icon_info s d0"
    using sites_http_icons_member [of env "all_sites data" tasks info]
    by (auto simp: get_all_http_icons_def)
  have u: "url info = get_or_empty (url_key s)" and d: "domain info = d0"
    and f: "filename info = d0 @ ''.ico''"
    using info by (simp_all add: make_icon_info_def)
  have proxy: "domain info = d \<and> domain info \<noteq> [] \<and> CHR ''/'' \<notin> set (domain info)"
    if "url info = p @ ''/favicon/'' @ d" "\<not> str_in ''/favicon/'' (p @ ''/favicon'')"
      "d \<noteq> []" "CHR ''/'' \<notin> set d" for p d
  proof -
    from that(1) u have "get_or_empty (url_key s) = p @ ''/favicon/'' @ d" by simp
    from extract_domain_proxy [OF this that(2) that(4), of env] d0 have "d0 = d" by simp
    with d that(3,4) show ?thesis by simp
  qed
  have plain: "\<exists>scheme. urlparse env (url info) = Inr (scheme, domain info)"
    if "\<not> str_in ''favicon/'' (url info)"
  proof -
    from that u have "\<not> str_in ''favicon/'' (get_or_empty (url_key s))" by simp
    from extract_domain_plain [OF this, of env] d0 u d show ?thesis
      by (auto split: sum.splits)
  qed
  show ?thesis using f d proxy plain by blast
qed

lemma example_task_list:
  "get_all_http_icons example_env example_dataset =
     Inr [\<lparr>url = ''http://icon.example/favicon/foo.com'', domain = ''foo.com'',
           filename = ''foo.com.ico'', site_name = ''Foo'',
           site_url = ''http://icon.example/favicon/foo.com''\<rparr>,
          \<lparr>url = ''https://example.com/page'', domain = ''example.com'',
           filename = ''example.com.ico'', site_name = ''Example'',
           site_url = ''https://example.com/page''\<rparr>]"
  by (simp add: get_all_http_icons_def all_sites_def example_dataset_def extract_domain_def
      make_icon_info_def get_or_empty_def startswith_def str_split_def example_defs Let_def)

theorem task_filename_witness:
  "filename \<lparr>url = ''http://icon.example/favicon/foo.com'', domain = ''foo.com'',
             filename = ''foo.com.ico'', site_name = ''Foo'',
             site_url = ''http://icon.example/favicon/foo.com''\<rparr> = ''foo.com'' @ ''.ico'' \<and>
   domain \<lparr>url = ''http://icon.example/favicon/foo.com'', domain = ''foo.com'',
           filename = ''foo.com.ico'', site_name = ''Foo'',
           site_url = ''http://icon.example/favicon/foo.com''\<rparr> = ''foo.com'' \<and>
   (\<exists>scheme. urlparse example_env ''https://example.com/page'' = Inr (scheme, ''example.com''))"
proof -
  let ?foo = "\<lparr>url = ''http://icon.example/favicon/foo.com'', domain = ''foo.com'',
           filename = ''foo.com.ico'', site_name = ''Foo'',
           site_url = ''http://icon.example/favicon/foo.com''\<rparr>"
  let ?ex = "\<lparr>url = ''https://example.com/page'', domain = ''example.com'',
           filename = ''example.com.ico'', site_name = ''Example'',
           site_url = ''https://example.com/page''\<rparr>"
  have m1: "?foo \<in> set [?foo, ?ex]" and m2: "?ex \<in> set [?foo, ?ex]" by simp_all
  have form: "url ?foo = ''http://icon.example'' @ ''/favicon/'' @ ''foo.com'' \<and>
      \<not> str_in ''/favicon/'' (''http://icon.example'' @ ''/favicon'') \<and>
      ''foo.com'' \<noteq> [] \<and> CHR ''/'' \<notin> set ''foo.com''"
    by (simp add: startswith_def)
  have plain: "\<not> str_in ''favicon/'' (url ?ex)" by (simp add: startswith_def)
  from task_filename [OF example_task_list m1, THEN conjunct1]
  have a: "filename ?foo = ''foo.com'' @ ''.ico''" by simp
  from task_filename [OF example_task_list m1, THEN conjunct2, THEN conjunct1, rule_format,
      of "''http://icon.example''" "''foo.com''"] form
  have b: "domain ?foo = ''foo.com''" by blast
  from task_filename [OF example_task_list m2, THEN conjunct2, THEN conjunct2] plain
  have c: "\<exists>scheme. urlparse example_env ''https://example.com/page'' = Inr (scheme, ''example.com'')"
    by simp
  from a b c show ?thesis by blast
qed

text \<open>
  Two tasks the script builds: one with an empty domain and the file name \<open>.ico\<close>, one
  whose domain has a slash in it.
\<close>

theorem unchecked_domain_counterexample:
  "get_all_http_icons example_env
     \<lparr>categories =
        [\<lparr>sites = [\<lparr>name_key = Some ''Empty'', url_key = Some ''http://icon.example/favicon/''\<rparr>,
                   \<lparr>name_key = Some ''Nested'', url_key = Some ''http://icon.example/favicon/a/b''\<rparr>]\<rparr>]\<rparr> =
     Inr [\<lparr>url = ''http://icon.example/favicon/'', domain = [], filename = ''.ico'',
           site_name = ''Empty'', site_url = ''http://icon.example/favicon/''\<rparr>,
          \<lparr>url = ''http://icon.example/favicon/a/b'', domain = ''a/b'', filename = ''a/b.ico'',
           site_name = ''Nested'', site_url = ''http://icon.example/favicon/a/b''\<rparr>]"
  by (simp add: get_all_http_icons_def all_sites_def extract_domain_def make_icon_info_def
      get_or_empty_def startswith_def str_split_def Let_def)

lemma absolute_startswith_http: "spec_absolute_http_url u \<Longrightarrow> startswith u ''http''"
proof -
  assume "spec_absolute_http_url u"
  then consider q where "u = ''http://'' @ q" | q where "u = ''https://'' @ q"
    by (auto simp: spec_absolute_http_url_def startswith_iff)
  then show ?thesis by cases (simp_all add: startswith_def)
qed

lemma leading_slash_not_http: "startswith u ''/'' \<Longrightarrow> \<not> startswith u ''http''"
  by (cases u) (auto simp: startswith_def)

lemma batch_failed_urls_subset:
  assumes "run_batch env tasks w = Inr ((sc, fc, fu), w')"
  shows "sc + fc = length tasks \<and> set fu \<subseteq> set (map url tasks)"
proof -
  note c = run_batch_counts [OF assms]
  have "set fu \<subseteq> set (map url tasks)"
  proof
    fix x assume "x \<in> set fu"
    with c obtain p where "p \<in> set (zip tasks (task_outcomes env tasks w))" "x = url (fst p)"
      by auto
    moreover from this(1) have "fst p \<in> set tasks"
      by (metis prod.collapse set_zip_leftD)
    ultimately show "x \<in> set (map url tasks)" by simp
  qed
  with c show ?thesis by simp
qed

text \<open>
  Claim C6, as the code has it. An entry of the dataset gets a task exactly when its
  address, read as the empty string when missing, begins with the four characters
  \<open>http\<close>; the tasks keep the order of the dataset. Every absolute \<open>http\<close> or \<open>https\<close>
  address begins so, and no address beginning with a slash does, so root-relative and
  protocol-relative paths are left out. An entry that is left out has no task: the result
  of a batch over the task list counts as many outcomes as there are tasks, and every
  failed address is the address of a task.
\<close>

theorem task_list_filter:
  assumes "get_all_http_icons env data = Inr tasks"
  shows "map url tasks =
           filter (\<lambda>u. startswith u ''http'')
             (map (\<lambda>s. get_or_empty (url_key s)) (all_sites data)) \<and>
         (\<forall>u. spec_absolute_http_url u \<longrightarrow> startswith u ''http'') \<and>
         (\<forall>u. startswith u ''/'' \<longrightarrow> \<not> startswith u ''http'') \<and>
         (\<forall>w sc fc fu w'. run_batch env tasks w = Inr ((sc, fc, fu), w') \<longrightarrow>
            sc + fc = length tasks \<and> set fu \<subseteq> set (map url tasks))"
  using assms sites_http_icons_urls [of env "all_sites data" tasks]
    absolute_startswith_http leading_slash_not_http batch_failed_urls_subset
  unfolding get_all_http_icons_def by blast

lemma example_dataset_batch:
  "map_sum id fst (run_batch example_env
     [\<lparr>url = ''http://icon.example/favicon/foo.com'', domain = ''foo.com'',
       filename = ''foo.com.ico'', site_name = ''Foo'',
       site_url = ''http://icon.example/favicon/foo.com''\<rparr>,
      \<lparr>url = ''https://example.com/page'', domain = ''example.com'',
       filename = ''example.com.ico'', site_name = ''Example'',
       site_url = ''https://example.com/page''\<rparr>] (Map.empty, [])) =
     Inr (1, 1, [''http://icon.example/favicon/foo.com''])"
  by (simp add: run_batch_def example_defs script_defs Let_def)

theorem task_list_filter_witness:
  "[''http://icon.example/favicon/foo.com'', ''https://example.com/page''] =
     filter (\<lambda>u. startswith u ''http'')
       (map (\<lambda>s. get_or_empty (url_key s)) (all_sites example_dataset)) \<and>
   startswith ''https://example.com/page'' ''http'' \<and>
   \<not> startswith ''//cdn.example/x'' ''http'' \<and>
   (1::nat) + 1 = 2 \<and>
   set [''http://icon.example/favicon/foo.com''] \<subseteq>
     set [''http://icon.example/favicon/foo.com'', ''https://example.com/page'']"
proof -
  let ?tasks = "[\<lparr>url = ''http://icon.example/favicon/foo.com'', domain = ''foo.com'',
       filename = ''foo.com.ico'', site_name = ''Foo'',
       site_url = ''http://icon.example/favicon/foo.com''\<rparr>,
      \<lparr>url = ''https://example.com/page'', domain = ''example.com'',
       filename = ''example.com.ico'', site_name = ''Example'',
       site_url = ''https://example.com/page''\<rparr>]"
  have abs: "spec_absolute_http_url ''https://example.com/page''"
    by (simp add: spec_absolute_http_url_def startswith_def)
  have rel: "startswith ''//cdn.example/x'' ''/''" by (simp add: startswith_def)
  have run: "run_batch example_env ?tasks (Map.empty, []) =
      Inr ((1, 1, [''http://icon.example/favicon/foo.com'']),
           snd (projr (run_batch example_env ?tasks (Map.empty, []))))"
    using example_dataset_batch
    by (cases "run_batch example_env ?tasks (Map.empty, [])") auto
  from task_list_filter [OF example_task_list, THEN conjunct1]
  have a: "[''http://icon.example/favicon/foo.com'', ''https://example.com/page''] =
     filter (\<lambda>u. startswith u ''http'')
       (map (\<lambda>s. get_or_empty (url_key s)) (all_sites example_dataset))"
    by simp
  from task_list_filter [OF example_task_list, THEN conjunct2, THEN conjunct1] abs
  have b: "startswith ''https://example.com/page'' ''http''" by blast
  from task_list_filter [OF example_task_list, THEN conjunct2, THEN conjunct2, THEN conjunct1] rel
  have c: "\<not> startswith ''//cdn.example/x'' ''http''" by blast
  from task_list_filter [OF example_task_list, THEN conjunct2, THEN conjunct2, THEN conjunct2,
      rule_format, OF run]
  have d: "(1::nat) + 1 = 2 \<and>
     set [''http://icon.example/favicon/foo.com''] \<subseteq>
       set [''http://icon.example/favicon/foo.com'', ''https://example.com/page'']"
    by simp
  from a b c d show ?thesis by blast
qed

text \<open>
  A relative path that begins with \<open>http\<close> gets a task, though it has neither a scheme nor
  an authority.
\<close>

theorem relative_path_included_counterexample:
  "\<not> spec_absolute_http_url ''httpdocs/logo.png'' \<and>
   urlparse example_env ''httpdocs/logo.png'' = Inr ([], []) \<and>
   get_all_http_icons example_env
     \<lparr>categories = [\<lparr>sites = [\<lparr>name_key = Some ''Docs'', url_key = Some ''httpdocs/logo.png''\<rparr>]\<rparr>]\<rparr> =
     Inr [\<lparr>url = ''httpdocs/logo.png'', domain = [], filename = ''.ico'',
           site_name = ''Docs'', site_url = ''httpdocs/logo.png''\<rparr>]"
  by (simp add: spec_absolute_http_url_def get_all_http_icons_def all_sites_def
      extract_domain_def make_icon_info_def get_or_empty_def startswith_def example_defs Let_def)

subsection \<open>An existence test that raises\<close>

lemma long_name_domain:
  "extract_domain env
     \<lparr>name_key = n, url_key = Some (''http://icon.example/favicon/'' @ long_name)\<rparr> =
     Inr long_name"
proof -
  have "\<not> str_in ''/favicon/'' (''http://icon.example'' @ ''/favicon'')"
    by (simp add: startswith_def)
  moreover have "CHR ''/'' \<notin> set long_name" by (simp add: long_name_def)
  moreover have "get_or_empty (url_key \<lparr>name_key = n,
      url_key = Some (''http://icon.example/favicon/'' @ long_name)\<rparr>) =
      ''http://icon.example'' @ ''/favicon/'' @ long_name"
    by (simp add: get_or_empty_def)
  ultimately show ?thesis by (rule extract_domain_proxy [rotated])
qed

lemma example_page_domain:
  "extract_domain example_env \<lparr>name_key = n, url_key = Some ''https://example.com/page''\<rparr> =
     Inr ''example.com''"
  by (simp add: extract_domain_def get_or_empty_def startswith_def example_defs Let_def)

text \<open>
  Claim C8 fails on the code. The existence test of \<open>download_icon\<close> stands before the
  \<open>try\<close> block and the loop of \<open>main\<close> has no handler. The dataset below has two
  entries; the task list holds a task for each. The file name of the first task has 304
  characters, the existence test raises \<open>OSError\<close> on it, and the exception ends the batch:
  no request is issued, the second task, which succeeds when run alone, is never
  processed, and there are no counts and no list of failed addresses.
\<close>

theorem batch_aborts_on_existence_error:
  "get_all_http_icons example_env long_name_dataset =
     Inr [\<lparr>url = ''http://icon.example/favicon/'' @ long_name, domain = long_name,
           filename = long_name @ ''.ico'', site_name = ''Long'',
           site_url = ''http://icon.example/favicon/'' @ long_name\<rparr>,
          \<lparr>url = ''https://example.com/page'', domain = ''example.com'',
           filename = ''example.com.ico'', site_name = ''Example'',
           site_url = ''https://example.com/page''\<rparr>] \<and>
   length (long_name @ ''.ico'') = 304 \<and>
   run_batch example_env
     [\<lparr>url = ''http://icon.example/favicon/'' @ long_name, domain = long_name,
       filename = long_name @ ''.ico'', site_name = ''Long'',
       site_url = ''http://icon.example/favicon/'' @ long_name\<rparr>,
      \<lparr>url = ''https://example.com/page'', domain = ''example.com'',
       filename = ''example.com.ico'', site_name = ''Example'',
       site_url = ''https://example.com/page''\<rparr>] (Map.empty, []) =
     Inl (OSError, Map.empty, []) \<and>
   run_batch example_env
     [\<lparr>url = ''https://example.com/page'', domain = ''example.com'',
       filename = ''example.com.ico'', site_name = ''Example'',
       site_url = ''https://example.com/page''\<rparr>] (Map.empty, []) =
     Inr ((1, 0, []), [''example.com.ico'' \<mapsto> replicate 100 1],
          [''https://example.com/favicon.ico'', ''https://example.com/favicon.ico''])"
proof -
  let ?long = "\<lparr>url = ''http://icon.example/favicon/'' @ long_name, domain = long_name,
           filename = long_name @ ''.ico'', site_name = ''Long'',
           site_url = ''http://icon.example/favicon/'' @ long_name\<rparr>"
  let ?page = "\<lparr>url = ''https://example.com/page'', domain = ''example.com'',
           filename = ''example.com.ico'', site_name = ''Example'',
           site_url = ''https://example.com/page''\<rparr>"
  have tasks: "get_all_http_icons example_env long_name_dataset = Inr [?long, ?page]"
    by (simp add: get_all_http_icons_def all_sites_def long_name_dataset_def long_name_domain [simplified]
        example_page_domain make_icon_info_def get_or_empty_def startswith_def)
  have len: "length (long_name @ ''.ico'') = 304" by (simp add: long_name_def)
  have "exists_error example_env (filename ?long) = Some OSError"
    using len by (simp add: example_env_def)
  then have "download_icon example_env ?long (Map.empty, []) = Inl OSError"
    by (simp add: download_icon_raises_iff)
  then have abort: "run_batch example_env [?long, ?page] (Map.empty, []) =
      Inl (OSError, Map.empty, [])"
    unfolding run_batch_def by (rule batch_loop_raises)
  have alone: "run_batch example_env [?page] (Map.empty, []) =
     Inr ((1, 0, []), [''example.com.ico'' \<mapsto> replicate 100 1],
          [''https://example.com/favicon.ico'', ''https://example.com/favicon.ico''])"
    by (simp add: run_batch_def example_defs script_defs Let_def)
  from tasks len abort alone show ?thesis by blast
qed

end
